theory Spec2Isabelle
  imports Main
begin

section \<open>Strings\<close>

text \<open>
  A Python \<open>str\<close> is a sequence of code points and \<open>len\<close> counts code points, so
  a string is modelled as a list of code-point numbers. \<open>str\<close> turns an ASCII literal of
  the source into such a list.
\<close>

type_synonym pystr = "nat list"

definition str :: "string \<Rightarrow> pystr" where
  "str s = map of_char s"

text \<open>Truthiness of the result of \<open>dict.get\<close> on a string field: absent, null and
  the empty string are all false.\<close>

fun truthy :: "pystr option \<Rightarrow> bool" where
  "truthy None = False"
| "truthy (Some s) = (s \<noteq> [])"

section \<open>news\_service.py\<close>

record article =
  title :: pystr
  url :: pystr
  description :: pystr

text \<open>One element of the provider's \<open>articles\<close> list: each field read with
  \<open>article.get\<close>, \<open>None\<close> when the key is absent or null. The provider's schema has a
  string or null in each of the three fields.\<close>

record raw_article =
  raw_title :: "pystr option"
  raw_url :: "pystr option"
  raw_description :: "pystr option"

text \<open>
  The two handlers of \<open>fetch_ai_news\<close> distinguish \<open>requests.RequestException\<close>
  from every other \<open>Exception\<close>.
\<close>

datatype exc = RequestException | OtherException

text \<open>
  What \<open>response.json()\<close> gives: an object whose \<open>articles\<close> key is absent
  (\<open>None\<close>, read as the empty list by \<open>data.get('articles', [])\<close>) or holds a list of
  article objects, or any other value, on which the body of the \<open>try\<close> raises.
\<close>

datatype json = JArticles "raw_article list option" | JOther

record response =
  status_code :: nat
  json_body :: "json option"  \<comment> \<open>\<open>None\<close>: \<open>response.json()\<close> raises\<close>

datatype http_outcome = Raises exc | Responds response

definition truncate_description :: "pystr \<Rightarrow> pystr" where
  "truncate_description d = (if length d > 250 then take 247 d @ str ''...'' else d)"

definition get_fallback_news :: "article list" where
  "get_fallback_news =
    [\<lparr>title = str ''Latest Developments in Artificial Intelligence Research'',
      url = str ''https://www.nature.com/subjects/machine-learning'',
      description = str ''Stay updated with cutting-edge research in AI and machine learning from leading scientific journals and institutions worldwide.''\<rparr>,
     \<lparr>title = str ''AI Industry Trends and Market Analysis'',
      url = str ''https://www.mckinsey.com/capabilities/quantumblack/our-insights'',
      description = str ''Comprehensive analysis of AI adoption trends, market opportunities, and business transformation strategies across industries.''\<rparr>,
     \<lparr>title = str ''OpenAI and AI Safety Research Updates'',
      url = str ''https://openai.com/research'',
      description = str ''Latest research publications and safety developments from OpenAI and other leading AI research organizations.''\<rparr>,
     \<lparr>title = str ''Machine Learning Tools and Frameworks'',
      url = str ''https://github.com/topics/machine-learning'',
      description = str ''Discover new tools, libraries, and frameworks that are shaping the future of machine learning development.''\<rparr>,
     \<lparr>title = str ''AI Ethics and Responsible AI Development'',
      url = str ''https://www.partnershiponai.org'',
      description = str ''Important discussions on AI ethics, bias mitigation, and responsible development practices in artificial intelligence.''\<rparr>]"

text \<open>The test of the \<open>for\<close> loop of \<open>fetch_ai_news\<close>.\<close>

definition keep_article :: "raw_article \<Rightarrow> bool" where
  "keep_article a \<longleftrightarrow>
     truthy (raw_title a) \<and> truthy (raw_url a) \<and> truthy (raw_description a) \<and>
     raw_title a \<noteq> Some (str ''[Removed]'')"

text \<open>The list \<open>news_data\<close> after the loop over \<open>articles\<close>.\<close>

fun news_data :: "raw_article list \<Rightarrow> article list" where
  "news_data [] = []"
| "news_data (a # as) =
     (if keep_article a
      then \<lparr>title = the (raw_title a), url = the (raw_url a),
            description = truncate_description (the (raw_description a))\<rparr> # news_data as
      else news_data as)"

text \<open>\<open>response.raise_for_status()\<close> raises \<open>HTTPError\<close>, a \<open>RequestException\<close>,
  on a 4xx or 5xx status.\<close>

definition raise_for_status :: "response \<Rightarrow> bool" where
  "raise_for_status r \<longleftrightarrow> 400 \<le> status_code r \<and> status_code r < 600"

text \<open>
  The body of the \<open>try\<close> of \<open>fetch_ai_news\<close>: \<open>Inl\<close> is the exception it raises.
  \<open>api_key\<close> is \<open>os.environ.get('NEWS_API_KEY')\<close>; the request is made only with a
  non-empty key. A body that does not parse raises in \<open>response.json()\<close>; which class
  that exception has depends on the version of the library, and both handlers do the same.
\<close>

definition fetch_try :: "pystr option \<Rightarrow> http_outcome \<Rightarrow> exc + article list" where
  "fetch_try api_key http =
     (if \<not> truthy api_key then Inr get_fallback_news
      else case http of
          Raises e \<Rightarrow> Inl e
        | Responds r \<Rightarrow>
            if raise_for_status r then Inl RequestException
            else (case json_body r of
                None \<Rightarrow> Inl OtherException
              | Some JOther \<Rightarrow> Inl OtherException
              | Some (JArticles None) \<Rightarrow> Inr (take 5 (news_data []))
              | Some (JArticles (Some articles)) \<Rightarrow> Inr (take 5 (news_data articles))))"

definition fetch_ai_news :: "pystr option \<Rightarrow> http_outcome \<Rightarrow> article list" where
  "fetch_ai_news api_key http =
     (case fetch_try api_key http of
        Inr news \<Rightarrow> news
      | Inl RequestException \<Rightarrow> get_fallback_news
      | Inl OtherException \<Rightarrow> get_fallback_news)"

section \<open>models.py\<close>

type_synonym timestamp = nat

text \<open>A row of \<open>users\<close>; \<open>uid\<close> is the column \<open>id\<close>.\<close>

record user =
  uid :: nat
  email :: pystr
  date_subscribed :: timestamp
  is_active :: bool
  last_email_sent :: "timestamp option"

text \<open>
  A row of \<open>email_logs\<close> with the columns the code sets. The columns \<open>id\<close> and
  \<open>email_sent_at\<close> are filled by the store when the row is inserted; nothing below reads
  them.
\<close>

record email_log =
  user_id :: nat
  articles_count :: nat
  status :: pystr
  error_message :: "pystr option"

record database =
  users :: "user list"
  email_logs :: "email_log list"

section \<open>The world outside the program\<close>

text \<open>
  An exception is seen through \<open>str(e)\<close>: its text, or \<open>None\<close> when \<open>str(e)\<close> itself
  raises.
\<close>

type_synonym fault = "pystr option"

text \<open>
  What one call of \<open>send_news_email\<close> does: it returns a value, read for its truth, or
  raises an exception.
\<close>

datatype send_result = Returns bool | Throws fault

text \<open>
  Everything the code reads from outside is a field of \<open>world\<close>, so that a theorem
  about every world is a theorem about every behaviour of the collaborators. The mail
  call, the clock and the session take the number of the loop iteration, so that the same
  address and articles may meet a different fate at a different moment.
  \<open>stdout_accepts t\<close> says that \<open>print\<close> of a line of the program in which the text
  \<open>t\<close> is interpolated succeeds. \<open>session_add k\<close> is what staging a row
  (\<open>db.session.add\<close>) does in iteration \<open>k\<close>: it returns (\<open>None\<close>) or raises.
  \<open>py_strip\<close> and \<open>py_lower\<close> are \<open>str.strip\<close> and \<open>str.lower\<close>, whose Unicode
  tables are not part of the repository. The store is reached by the query and by
  \<open>commit\<close>, which succeed or raise as a whole; the text of their exceptions is the
  store's own and can be printed.
\<close>

record world =
  query_raises :: bool
  NEWS_API_KEY :: "pystr option"
  http_get :: http_outcome
  send_news_email :: "nat \<Rightarrow> pystr \<Rightarrow> article list \<Rightarrow> send_result"
  utcnow :: "nat \<Rightarrow> timestamp"
  stdout_accepts :: "pystr \<Rightarrow> bool"
  session_add :: "nat \<Rightarrow> fault option"
  commit_raises :: bool
  py_strip :: "pystr \<Rightarrow> pystr"
  py_lower :: "pystr \<Rightarrow> pystr"

section \<open>scheduler\_service.py: send\_daily\_news\<close>

text \<open>
  The state of the \<open>for\<close> loop: the two counters, the user objects visited so far
  (as the loop leaves them), the rows given to \<open>db.session.add\<close> in order, and the calls
  made to \<open>send_news_email\<close>.
\<close>

record loop_state =
  successful_sends :: nat
  failed_sends :: nat
  visited :: "user list"
  session_new :: "email_log list"
  mail_calls :: "(pystr \<times> article list) list"

definition loop_start :: loop_state where
  "loop_start = \<lparr>successful_sends = 0, failed_sends = 0, visited = [], session_new = [],
     mail_calls = []\<rparr>"

text \<open>One iteration either goes on to the next user or is left by an exception, which
  ends the loop.\<close>

datatype loop_result = Goes_on loop_state | Escapes loop_state

fun state_of :: "loop_result \<Rightarrow> loop_state" where
  "state_of (Goes_on st) = st"
| "state_of (Escapes st) = st"

fun escaped :: "loop_result \<Rightarrow> bool" where
  "escaped (Goes_on st) = False"
| "escaped (Escapes st) = True"

text \<open>
  The handler \<open>except Exception as e\<close> of the loop body. It counts a failure and prints a
  line with the address and \<open>{e}\<close>; that \<open>print\<close> stands outside the inner \<open>try\<close>,
  so an exception whose text cannot be formatted or printed leaves the loop. Then it
  stages the row for the failure inside \<open>try ... except: pass\<close>: when staging raises,
  the row is dropped and the loop goes on.
\<close>

definition handler :: "world \<Rightarrow> nat \<Rightarrow> article list \<Rightarrow> user \<Rightarrow> fault \<Rightarrow> loop_state \<Rightarrow> loop_result" where
  "handler w k news_articles u e st =
     (let st' = st\<lparr>failed_sends := failed_sends st + 1\<rparr> in
      case e of
        None \<Rightarrow> Escapes st'
      | Some text \<Rightarrow>
          if \<not> (stdout_accepts w (email u) \<and> stdout_accepts w text) then Escapes st'
          else (case session_add w k of
                  Some g \<Rightarrow> Goes_on st'
                | None \<Rightarrow>
                    Goes_on (st'\<lparr>session_new := session_new st' @
                      [\<lparr>user_id = uid u, articles_count = length news_articles,
                        status = str ''failed'', error_message = Some text\<rparr>]\<rparr>)))"

text \<open>
  The body of the loop for the user \<open>u\<close> in iteration \<open>k\<close>. After a mail call that
  returned, the branch taken counts, sets \<open>last_email_sent\<close> on success and prints a line
  with the address; a \<open>print\<close> that raises is caught by the handler, whose own
  \<open>print\<close> of the same address raises in turn. Then the row is staged; when that raises,
  the handler takes over with that exception.
\<close>

definition send_one :: "world \<Rightarrow> nat \<Rightarrow> article list \<Rightarrow> user \<Rightarrow> loop_state \<Rightarrow> loop_result" where
  "send_one w k news_articles u st =
     (case send_news_email w k (email u) news_articles of
        Returns success \<Rightarrow>
          (let email_log = \<lparr>user_id = uid u, articles_count = length news_articles,
                 status = (if success then str ''sent'' else str ''failed''),
                 error_message = None\<rparr>;
               st1 = (if success
                      then st\<lparr>successful_sends := successful_sends st + 1,
                              visited := visited st @ [u\<lparr>last_email_sent := Some (utcnow w k)\<rparr>]\<rparr>
                      else st\<lparr>failed_sends := failed_sends st + 1,
                              visited := visited st @ [u]\<rparr>);
               row = (if success then email_log
                      else email_log\<lparr>error_message := Some (str ''Failed to send email'')\<rparr>)
           in if \<not> stdout_accepts w (email u)
              then Escapes (st1\<lparr>failed_sends := failed_sends st1 + 1\<rparr>)
              else (case session_add w k of
                      None \<Rightarrow> Goes_on (st1\<lparr>session_new := session_new st1 @ [row]\<rparr>)
                    | Some g \<Rightarrow> handler w k news_articles u g st1))
      | Throws e \<Rightarrow> handler w k news_articles u e (st\<lparr>visited := visited st @ [u]\<rparr>))"

fun send_loop :: "world \<Rightarrow> article list \<Rightarrow> nat \<Rightarrow> user list \<Rightarrow> loop_state \<Rightarrow> loop_result" where
  "send_loop w news_articles k [] st = Goes_on st"
| "send_loop w news_articles k (u # us) st =
     (case send_one w k news_articles u
             (st\<lparr>mail_calls := mail_calls st @ [(email u, news_articles)]\<rparr>) of
        Goes_on st' \<Rightarrow> send_loop w news_articles (Suc k) us st'
      | Escapes st' \<Rightarrow> Escapes st')"

text \<open>
  The user objects of the snapshot are the active rows of the table; a commit writes each
  one back to its own row.
\<close>

fun write_back :: "user list \<Rightarrow> user list \<Rightarrow> user list" where
  "write_back [] vs = []"
| "write_back (u # us) vs =
     (if is_active u
      then (case vs of [] \<Rightarrow> u # write_back us [] | v # vs' \<Rightarrow> v # write_back us vs')
      else u # write_back us vs)"

text \<open>The three numbers printed at the end of a run.\<close>

record summary =
  successful :: nat
  failed :: nat
  articles :: nat

text \<open>
  A run: the summary it prints (\<open>None\<close> when it ends before printing one), the store
  afterwards, the number of calls of \<open>fetch_ai_news\<close>, \<open>commit\<close> and \<open>rollback\<close>,
  the state in which the loop ended, and whether an exception left the loop. Such an
  exception reaches the outer handler, which rolls back; nothing is committed and no
  counts are printed.
\<close>

record run =
  printed :: "summary option"
  db_after :: database
  fetches :: nat
  commits :: nat
  rollbacks :: nat
  final :: loop_state
  loop_escaped :: bool

definition send_daily_news :: "world \<Rightarrow> database \<Rightarrow> run" where
  "send_daily_news w db =
     (if query_raises w
      then \<lparr>printed = None, db_after = db, fetches = 0, commits = 0, rollbacks = 1,
            final = loop_start, loop_escaped = False\<rparr>
      else let active = filter is_active (users db) in
        if active = []
        then \<lparr>printed = None, db_after = db, fetches = 0, commits = 0, rollbacks = 0,
              final = loop_start, loop_escaped = False\<rparr>
        else let news_articles = fetch_ai_news (NEWS_API_KEY w) (http_get w) in
          if news_articles = []
          then \<lparr>printed = None, db_after = db, fetches = 1, commits = 0, rollbacks = 0,
                final = loop_start, loop_escaped = False\<rparr>
          else (case send_loop w news_articles 0 active loop_start of
              Escapes st \<Rightarrow>
                \<lparr>printed = None, db_after = db, fetches = 1, commits = 0, rollbacks = 1,
                 final = st, loop_escaped = True\<rparr>
            | Goes_on st \<Rightarrow>
                \<lparr>printed = Some \<lparr>successful = successful_sends st, failed = failed_sends st,
                     articles = length news_articles\<rparr>,
                 db_after =
                   (if commit_raises w then db
                    else db\<lparr>users := write_back (users db) (visited st),
                            email_logs := email_logs db @ session_new st\<rparr>),
                 fetches = 1, commits = 1,
                 rollbacks = (if commit_raises w then 1 else 0),
                 final = st, loop_escaped = False\<rparr>))"

section \<open>scheduler\_service.py: start\_scheduler\<close>

record cron_trigger =
  hour :: nat
  minute :: nat
  timezone :: pystr

record job =
  job_id :: pystr
  job_name :: pystr
  trigger :: cron_trigger
  max_instances :: nat
  coalesce :: bool

datatype scheduler_error = ConflictingIdError

text \<open>
  How the scheduler library puts a job into a job store (a list of jobs): a job whose id
  is already in the store is replaced when \<open>replace_existing\<close> is set and refused
  otherwise.
\<close>

definition add_job :: "job \<Rightarrow> bool \<Rightarrow> job list \<Rightarrow> scheduler_error + job list" where
  "add_job j replace_existing store =
     (if job_id j \<in> set (map job_id store)
      then (if replace_existing
            then Inr (map (\<lambda>j'. if job_id j' = job_id j then j else j') store)
            else Inl ConflictingIdError)
      else Inr (store @ [j]))"

text \<open>The arguments of the one \<open>scheduler.add_job\<close> call of \<open>start_scheduler\<close>.\<close>

definition daily_news_job :: job where
  "daily_news_job =
     \<lparr>job_id = str ''daily_news_job'',
      job_name = str ''Send daily AI news at 10:00 AM IST'',
      trigger = \<lparr>hour = 22, minute = 22, timezone = str ''Asia/Kolkata''\<rparr>,
      max_instances = 1,
      coalesce = True\<rparr>"

definition register_daily_news_job :: "job list \<Rightarrow> scheduler_error + job list" where
  "register_daily_news_job store = add_job daily_news_job True store"

record scheduler =
  daemon :: bool
  jobs :: "job list"
  running :: bool

text \<open>\<open>start_scheduler\<close> makes a new scheduler, whose store is empty, registers the job
  and starts it; it returns \<open>None\<close> when anything raised.\<close>

definition start_scheduler :: "scheduler option" where
  "start_scheduler =
     (case register_daily_news_job [] of
        Inl e \<Rightarrow> None
      | Inr store \<Rightarrow> Some \<lparr>daemon = True, jobs = store, running = True\<rparr>)"

section \<open>routes.py: validate\_email\<close>

text \<open>
  Regular expressions over code points, with character classes given as lists of
  inclusive ranges, matched by derivatives.
\<close>

datatype rexp =
    RNone
  | REps
  | RClass "(nat \<times> nat) list"
  | RAlt rexp rexp
  | RSeq rexp rexp
  | RStar rexp

fun in_class :: "nat \<Rightarrow> (nat \<times> nat) list \<Rightarrow> bool" where
  "in_class c [] = False"
| "in_class c ((lo, hi) # rs) = ((lo \<le> c \<and> c \<le> hi) \<or> in_class c rs)"

fun nullable :: "rexp \<Rightarrow> bool" where
  "nullable RNone = False"
| "nullable REps = True"
| "nullable (RClass rs) = False"
| "nullable (RAlt r s) = (nullable r \<or> nullable s)"
| "nullable (RSeq r s) = (nullable r \<and> nullable s)"
| "nullable (RStar r) = True"

fun deriv :: "nat \<Rightarrow> rexp \<Rightarrow> rexp" where
  "deriv c RNone = RNone"
| "deriv c REps = RNone"
| "deriv c (RClass rs) = (if in_class c rs then REps else RNone)"
| "deriv c (RAlt r s) = RAlt (deriv c r) (deriv c s)"
| "deriv c (RSeq r s) =
     (if nullable r then RAlt (RSeq (deriv c r) s) (deriv c s) else RSeq (deriv c r) s)"
| "deriv c (RStar r) = RSeq (deriv c r) (RStar r)"

fun fullmatch :: "rexp \<Rightarrow> pystr \<Rightarrow> bool" where
  "fullmatch r [] = nullable r"
| "fullmatch r (c # cs) = fullmatch (deriv c r) cs"

definition rng :: "char \<Rightarrow> char \<Rightarrow> nat \<times> nat" where
  "rng a b = (of_char a, of_char b)"

definition one_or_more :: "rexp \<Rightarrow> rexp" where
  "one_or_more r = RSeq r (RStar r)"

text \<open>The pattern \<^verbatim>\<open>[a-zA-Z0-9._%+-]+@[a-zA-Z0-9.-]+\.[a-zA-Z]{2,}\<close> between the anchors.\<close>

definition email_pattern :: rexp where
  "email_pattern =
     RSeq (one_or_more (RClass [rng CHR ''a'' CHR ''z'', rng CHR ''A'' CHR ''Z'',
              rng CHR ''0'' CHR ''9'', rng CHR ''.'' CHR ''.'', rng CHR ''_'' CHR ''_'',
              rng CHR ''%'' CHR ''%'', rng CHR ''+'' CHR ''+'', rng CHR ''-'' CHR ''-'']))
    (RSeq (RClass [rng CHR ''@'' CHR ''@''])
    (RSeq (one_or_more (RClass [rng CHR ''a'' CHR ''z'', rng CHR ''A'' CHR ''Z'',
              rng CHR ''0'' CHR ''9'', rng CHR ''.'' CHR ''.'', rng CHR ''-'' CHR ''-'']))
    (RSeq (RClass [rng CHR ''.'' CHR ''.''])
    (RSeq (RClass [rng CHR ''a'' CHR ''z'', rng CHR ''A'' CHR ''Z''])
          (one_or_more (RClass [rng CHR ''a'' CHR ''z'', rng CHR ''A'' CHR ''Z'']))))))"

text \<open>
  \<open>re.match\<close> with \<open>^\<close> and \<open>$\<close>: the pattern matches from the start up to the end of
  the string, or up to a line feed that is its last character.
\<close>

definition validate_email :: "pystr \<Rightarrow> bool" where
  "validate_email s \<longleftrightarrow>
     fullmatch email_pattern s \<or>
     (s \<noteq> [] \<and> last s = 10 \<and> fullmatch email_pattern (butlast s))"

section \<open>routes.py: subscribe and api\_subscribe\<close>

datatype http_method = GET | POST

datatype flash_message =
    Please_enter_an_email_address
  | Please_enter_a_valid_email_address
  | This_email_is_already_subscribed
  | Welcome_back
  | Successfully_subscribed
  | An_error_occurred

datatype view = Render_subscribe | Redirect_subscribe | Redirect_home

text \<open>The object that \<open>.first()\<close> returned is the first matching row; assigning to its
  attributes changes that row and no other.\<close>

fun update_first :: "('a \<Rightarrow> bool) \<Rightarrow> ('a \<Rightarrow> 'a) \<Rightarrow> 'a list \<Rightarrow> 'a list" where
  "update_first P f [] = []"
| "update_first P f (x # xs) = (if P x then f x # xs else x # update_first P f xs)"

text \<open>
  \<open>User(email=email)\<close> with the defaults of the columns; the store gives the new row the
  next free id.
\<close>

definition new_user :: "world \<Rightarrow> pystr \<Rightarrow> user list \<Rightarrow> user" where
  "new_user w address table =
     \<lparr>uid = Suc (fold max (map uid table) 0), email = address,
      date_subscribed = utcnow w 0, is_active = True, last_email_sent = None\<rparr>"

definition reactivate :: "world \<Rightarrow> user \<Rightarrow> user" where
  "reactivate w existing_user = existing_user\<lparr>is_active := True, date_subscribed := utcnow w 0\<rparr>"

text \<open>
  \<open>subscribe\<close>: the argument \<open>form_email\<close> is \<open>request.form.get('email')\<close>. The result is
  the message flashed, the page answered and the store afterwards. A fault of the query or
  of the commit is caught by the handler, which rolls back.
\<close>

definition subscribe ::
  "world \<Rightarrow> http_method \<Rightarrow> pystr option \<Rightarrow> database \<Rightarrow> flash_message option \<times> view \<times> database" where
  "subscribe w method form_email db =
     (if method = POST then
        (let address = py_lower w (py_strip w (case form_email of None \<Rightarrow> [] | Some e \<Rightarrow> e)) in
         if address = [] then (Some Please_enter_an_email_address, Redirect_subscribe, db)
         else if \<not> validate_email address
           then (Some Please_enter_a_valid_email_address, Redirect_subscribe, db)
         else if query_raises w then (Some An_error_occurred, Redirect_subscribe, db)
         else (case find (\<lambda>u. email u = address) (users db) of
             Some existing_user \<Rightarrow>
               if is_active existing_user
               then (Some This_email_is_already_subscribed, Redirect_home, db)
               else if commit_raises w then (Some An_error_occurred, Redirect_subscribe, db)
               else (Some Welcome_back, Redirect_home,
                     db\<lparr>users := update_first (\<lambda>u. email u = address) (reactivate w) (users db)\<rparr>)
           | None \<Rightarrow>
               if commit_raises w then (Some An_error_occurred, Redirect_subscribe, db)
               else (Some Successfully_subscribed, Redirect_home,
                     db\<lparr>users := users db @ [new_user w address (users db)]\<rparr>)))
      else (None, Render_subscribe, db))"

text \<open>
  The body of a request to \<open>/api/subscribe\<close>: a JSON object whose \<open>email\<close> key is
  absent (\<open>None\<close>) or holds a string, or anything else (no object, or an \<open>email\<close> that is
  no string), on which the code raises.
\<close>

datatype api_json = Json_object "pystr option" | Json_other

text \<open>\<open>api_subscribe\<close>: the result is the status code, the \<open>success\<close> flag and the
  store afterwards.\<close>

definition api_subscribe :: "world \<Rightarrow> api_json \<Rightarrow> database \<Rightarrow> nat \<times> bool \<times> database" where
  "api_subscribe w body db =
     (case body of
        Json_other \<Rightarrow> (500, False, db)
      | Json_object e \<Rightarrow>
         (let address = py_lower w (py_strip w (case e of None \<Rightarrow> [] | Some e \<Rightarrow> e)) in
          if address = [] \<or> \<not> validate_email address then (400, False, db)
          else if query_raises w then (500, False, db)
          else (case find (\<lambda>u. email u = address) (users db) of
              Some existing_user \<Rightarrow>
                if is_active existing_user then (400, False, db)
                else if commit_raises w then (500, False, db)
                else (200, True,
                      db\<lparr>users := update_first (\<lambda>u. email u = address) (reactivate w) (users db)\<rparr>)
            | None \<Rightarrow>
                if commit_raises w then (500, False, db)
                else (200, True, db\<lparr>users := users db @ [new_user w address (users db)]\<rparr>))))"

section \<open>Auxiliary functions\<close>

text \<open>
  What an iteration that goes on does to one user, field by field. \<open>outcome\<close> is the
  result of the mail call of iteration \<open>fst p\<close> for the user \<open>snd p\<close>, the pairs being
  those of \<open>enumerate 0 users\<close>. \<open>no_escape\<close> says that no exception leaves that
  iteration: the address can be printed, and so can the text of the exception that the
  handler prints, if there is one. \<open>staged_row\<close> is the row staged when staging does not
  raise, \<open>visited_user\<close> the user object afterwards, \<open>failures\<close> the number added to
  \<open>failed_sends\<close>.
\<close>

definition outcome :: "world \<Rightarrow> article list \<Rightarrow> nat \<times> user \<Rightarrow> send_result" where
  "outcome w news_articles p = send_news_email w (fst p) (email (snd p)) news_articles"

definition printable :: "world \<Rightarrow> fault \<Rightarrow> bool" where
  "printable w e = (case e of None \<Rightarrow> False | Some text \<Rightarrow> stdout_accepts w text)"

definition no_escape :: "world \<Rightarrow> article list \<Rightarrow> nat \<times> user \<Rightarrow> bool" where
  "no_escape w news_articles p \<longleftrightarrow>
     stdout_accepts w (email (snd p)) \<and>
     (case outcome w news_articles p of
        Throws e \<Rightarrow> printable w e
      | Returns success \<Rightarrow>
          (case session_add w (fst p) of None \<Rightarrow> True | Some g \<Rightarrow> printable w g))"

definition staged_row :: "send_result \<Rightarrow> article list \<Rightarrow> user \<Rightarrow> email_log" where
  "staged_row r news_articles u =
     \<lparr>user_id = uid u, articles_count = length news_articles,
      status = (if r = Returns True then str ''sent'' else str ''failed''),
      error_message =
        (case r of
           Returns success \<Rightarrow> if success then None else Some (str ''Failed to send email'')
         | Throws e \<Rightarrow> e)\<rparr>"

definition visited_user :: "send_result \<Rightarrow> timestamp \<Rightarrow> user \<Rightarrow> user" where
  "visited_user r now u = (if r = Returns True then u\<lparr>last_email_sent := Some now\<rparr> else u)"

definition failures :: "world \<Rightarrow> article list \<Rightarrow> nat \<times> user \<Rightarrow> nat" where
  "failures w news_articles p =
     (case outcome w news_articles p of
        Returns success \<Rightarrow>
          (if success then 0 else 1) + (if session_add w (fst p) = None then 0 else 1)
      | Throws e \<Rightarrow> 1)"

section \<open>Concrete inputs\<close>

text \<open>\<open>strip\<close> and \<open>lower\<close> on ASCII text.\<close>

definition ascii_lower :: "pystr \<Rightarrow> pystr" where
  "ascii_lower s = map (\<lambda>c. if 65 \<le> c \<and> c \<le> 90 then c + 32 else c) s"

definition ascii_strip :: "pystr \<Rightarrow> pystr" where
  "ascii_strip s = rev (dropWhile (\<lambda>c. c = 32) (rev (dropWhile (\<lambda>c. c = 32) s)))"

text \<open>A provider answer with four articles: one with a long description, a removed one,
  one without a link and a short one.\<close>

definition sample_response :: http_outcome where
  "sample_response = Responds \<lparr>status_code = 200, json_body = Some (JArticles (Some
     [\<lparr>raw_title = Some (str ''A''), raw_url = Some (str ''u''),
       raw_description = Some (replicate 300 120)\<rparr>,
      \<lparr>raw_title = Some (str ''[Removed]''), raw_url = Some (str ''v''),
       raw_description = Some (str ''gone'')\<rparr>,
      \<lparr>raw_title = Some (str ''B''), raw_url = None,
       raw_description = Some (str ''no link'')\<rparr>,
      \<lparr>raw_title = Some (str ''C''), raw_url = Some (str ''w''),
       raw_description = Some (str ''short'')\<rparr>]))\<rparr>"

definition empty_response :: http_outcome where
  "empty_response = Responds \<lparr>status_code = 200, json_body = Some (JArticles (Some []))\<rparr>"

definition server_error :: response where
  "server_error = \<lparr>status_code = 503, json_body = None\<rparr>"

text \<open>A world without an API key, in which the first mail call succeeds, the second
  raises, and every later one returns false.\<close>

definition sample_send :: "nat \<Rightarrow> pystr \<Rightarrow> article list \<Rightarrow> send_result" where
  "sample_send k address news_articles =
     (if k = 0 then Returns True else if k = 1 then Throws (Some (str ''boom''))
      else Returns False)"

text \<open>A standard output in UTF-8: it refuses the surrogate code points.\<close>

definition utf8_accepts :: "pystr \<Rightarrow> bool" where
  "utf8_accepts t = list_all (\<lambda>c. c < 55296 \<or> 57343 < c) t"

definition always_staged :: "nat \<Rightarrow> fault option" where
  "always_staged k = None"

definition sample_clock :: "nat \<Rightarrow> timestamp" where
  "sample_clock k = 1000 + k"

definition sample_world :: world where
  "sample_world =
     \<lparr>query_raises = False, NEWS_API_KEY = None, http_get = Raises RequestException,
      send_news_email = sample_send, utcnow = sample_clock,
      stdout_accepts = utf8_accepts, session_add = always_staged, commit_raises = False,
      py_strip = ascii_strip, py_lower = ascii_lower\<rparr>"


text \<open>The same world with a key and a provider that has no articles.\<close>

definition no_news_world :: world where
  "no_news_world =
     sample_world\<lparr>NEWS_API_KEY := Some (str ''key''), http_get := empty_response\<rparr>"

text \<open>A world in which every mail call raises an exception whose text is empty.\<close>

definition silent_send :: "nat \<Rightarrow> pystr \<Rightarrow> article list \<Rightarrow> send_result" where
  "silent_send k address news_articles = Throws (Some [])"

definition silent_fault_world :: world where
  "silent_fault_world = sample_world\<lparr>send_news_email := silent_send\<rparr>"

text \<open>A world in which the second mail call raises an exception whose text is a lone
  surrogate, which the standard output refuses.\<close>

definition surrogate_send :: "nat \<Rightarrow> pystr \<Rightarrow> article list \<Rightarrow> send_result" where
  "surrogate_send k address news_articles =
     (if k = 1 then Throws (Some [55296]) else Returns True)"

definition unprintable_fault_world :: world where
  "unprintable_fault_world = sample_world\<lparr>send_news_email := surrogate_send\<rparr>"



text \<open>Three active subscribers and one who has unsubscribed and has a row in the log.\<close>

definition ann :: user where
  "ann = \<lparr>uid = 1, email = str ''ann@x.org'', date_subscribed = 10, is_active = True,
     last_email_sent = None\<rparr>"

definition bob :: user where
  "bob = \<lparr>uid = 2, email = str ''bob@x.org'', date_subscribed = 20, is_active = True,
     last_email_sent = Some 500\<rparr>"

definition cy :: user where
  "cy = \<lparr>uid = 3, email = str ''cy@x.org'', date_subscribed = 30, is_active = False,
     last_email_sent = Some 600\<rparr>"

definition dee :: user where
  "dee = \<lparr>uid = 4, email = str ''dee@x.org'', date_subscribed = 40, is_active = True,
     last_email_sent = None\<rparr>"

definition cy_log :: email_log where
  "cy_log = \<lparr>user_id = 3, articles_count = 5, status = str ''sent'', error_message = None\<rparr>"

definition sample_db :: database where
  "sample_db = \<lparr>users = [ann, bob, cy, dee], email_logs = [cy_log]\<rparr>"

definition one_subscriber_db :: database where
  "one_subscriber_db = \<lparr>users = [ann], email_logs = []\<rparr>"

definition no_subscriber_db :: database where
  "no_subscriber_db = \<lparr>users = [cy], email_logs = [cy_log]\<rparr>"

text \<open>A job store that already holds a job with the id of the daily job.\<close>

definition stale_job :: job where
  "stale_job = daily_news_job\<lparr>trigger := \<lparr>hour = 10, minute = 0, timezone = str ''UTC''\<rparr>\<rparr>"

section \<open>Facts about the news service\<close>

lemma length_str [simp]: "length (str s) = length s"
  by (simp add: str_def)

lemma str_eq_Nil [simp]: "str s = [] \<longleftrightarrow> s = []"
  by (simp add: str_def)

lemma truncate_description_length: "length (truncate_description d) \<le> 250"
  by (simp add: truncate_description_def)

lemma truncate_description_nonempty: "d \<noteq> [] \<Longrightarrow> truncate_description d \<noteq> []"
  by (auto simp: truncate_description_def)

lemma news_data_ok:
  "a \<in> set (news_data as) \<Longrightarrow>
     length (description a) \<le> 250 \<and> title a \<noteq> [] \<and> url a \<noteq> [] \<and> description a \<noteq> [] \<and>
     title a \<noteq> str ''[Removed]''"
proof (induction as)
  case Nil
  then show ?case by simp
next
  case (Cons r rs)
  show ?case
  proof (cases "keep_article r \<and> a = \<lparr>title = the (raw_title r), url = the (raw_url r),
            description = truncate_description (the (raw_description r))\<rparr>")
    case True
    then obtain t u d where "raw_title r = Some t" "raw_url r = Some u" "raw_description r = Some d"
      and "t \<noteq> []" "u \<noteq> []" "d \<noteq> []" "t \<noteq> str ''[Removed]''"
      by (cases "raw_title r"; cases "raw_url r"; cases "raw_description r")
         (auto simp: keep_article_def)
    with True show ?thesis
      by (simp add: truncate_description_length truncate_description_nonempty)
  next
    case False
    with Cons show ?thesis by (auto split: if_splits)
  qed
qed

lemma fallback_ok:
  "a \<in> set get_fallback_news \<Longrightarrow>
     length (description a) \<le> 250 \<and> title a \<noteq> [] \<and> url a \<noteq> [] \<and> description a \<noteq> [] \<and>
     title a \<noteq> str ''[Removed]''"
  by (auto simp: get_fallback_news_def dest!: arg_cong [where f = length])

lemma fallback_length: "length get_fallback_news = 5"
  by (simp add: get_fallback_news_def)

lemma fallback_nonempty: "get_fallback_news \<noteq> []"
  using fallback_length by auto

lemma fetch_elem:
  "a \<in> set (fetch_ai_news k h) \<Longrightarrow> a \<in> set get_fallback_news \<or> (\<exists>as. a \<in> set (news_data as))"
  by (auto simp: fetch_ai_news_def fetch_try_def dest: in_set_takeD
      split: http_outcome.splits exc.splits option.splits json.splits if_splits sum.splits)

lemma fetch_length: "length (fetch_ai_news k h) \<le> 5"
  by (auto simp: fetch_ai_news_def fetch_try_def fallback_length
      split: http_outcome.splits exc.splits option.splits json.splits if_splits sum.splits)

lemma fetch_no_key: "\<not> truthy k \<Longrightarrow> fetch_ai_news k h = get_fallback_news"
  by (simp add: fetch_ai_news_def fetch_try_def)

lemma sample_fetch:
  "fetch_ai_news (Some (str ''key'')) sample_response =
     [\<lparr>title = str ''A'', url = str ''u'', description = replicate 247 120 @ str ''...''\<rparr>,
      \<lparr>title = str ''C'', url = str ''w'', description = str ''short''\<rparr>]"
  by (simp add: fetch_ai_news_def fetch_try_def sample_response_def raise_for_status_def
      keep_article_def truncate_description_def str_def)

text \<open>
  C3: whatever the key and whatever the provider does, \<open>fetch_ai_news\<close> returns at
  most 5 articles; each has a description of at most 250 characters, a non-empty title,
  URL and description, and a title other than \<open>[Removed]\<close>. A description of more than
  250 characters is cut to its first 247 characters followed by three dots, 250 in all; a
  description of at most 250 characters is returned as it is.
\<close>

theorem fetch_ai_news_bounded:
  "length (fetch_ai_news api_key http) \<le> 5 \<and>
   (\<forall>a \<in> set (fetch_ai_news api_key http).
      length (description a) \<le> 250 \<and> title a \<noteq> [] \<and> url a \<noteq> [] \<and> description a \<noteq> [] \<and>
      title a \<noteq> str ''[Removed]'') \<and>
   (length d > 250 \<longrightarrow>
      length (truncate_description d) = 250 \<and> truncate_description d = take 247 d @ str ''...'') \<and>
   (length d' \<le> 250 \<longrightarrow> truncate_description d' = d')"
proof -
  have "\<forall>a \<in> set (fetch_ai_news api_key http).
      length (description a) \<le> 250 \<and> title a \<noteq> [] \<and> url a \<noteq> [] \<and> description a \<noteq> [] \<and>
      title a \<noteq> str ''[Removed]''"
    using fetch_elem fallback_ok news_data_ok by blast
  moreover have "length d > 250 \<longrightarrow>
      length (truncate_description d) = 250 \<and> truncate_description d = take 247 d @ str ''...''"
    by (simp add: truncate_description_def)
  moreover have "length d' \<le> 250 \<longrightarrow> truncate_description d' = d'"
    by (simp add: truncate_description_def)
  ultimately show ?thesis
    using fetch_length by blast
qed

theorem fetch_ai_news_bounded_witness:
  "fetch_ai_news (Some (str ''key'')) sample_response =
     [\<lparr>title = str ''A'', url = str ''u'', description = replicate 247 120 @ str ''...''\<rparr>,
      \<lparr>title = str ''C'', url = str ''w'', description = str ''short''\<rparr>] \<and>
   length (fetch_ai_news (Some (str ''key'')) sample_response) \<le> 5 \<and>
   length (description (hd (fetch_ai_news (Some (str ''key'')) sample_response))) \<le> 250 \<and>
   title (hd (fetch_ai_news (Some (str ''key'')) sample_response)) \<noteq> str ''[Removed]'' \<and>
   length (replicate 300 (120::nat)) > 250 \<and>
   length (truncate_description (replicate 300 120)) = 250 \<and>
   truncate_description (replicate 300 120) = replicate 247 120 @ str ''...'' \<and>
   length (str ''short'') \<le> 250 \<and>
   truncate_description (str ''short'') = str ''short''"
  using fetch_ai_news_bounded [of "Some (str ''key'')" sample_response "replicate 300 120" "str ''short''"]
    sample_fetch
  by simp

text \<open>
  C4: whenever the body of \<open>fetch_ai_news\<close> raises, and in particular without an API
  key, when the request raises (transport error, timeout), on a 4xx or 5xx status and on
  a body that cannot be read, the function returns the fixed fallback list, which has 5
  items; no exception leaves it.
\<close>

theorem fetch_ai_news_fallback:
  "(fetch_try api_key http = Inl e \<longrightarrow> fetch_ai_news api_key http = get_fallback_news) \<and>
   (\<not> truthy api_key' \<longrightarrow> fetch_ai_news api_key' http' = get_fallback_news) \<and>
   fetch_ai_news api_key (Raises e') = get_fallback_news \<and>
   (raise_for_status r \<longrightarrow> fetch_ai_news api_key (Responds r) = get_fallback_news) \<and>
   (json_body r' = None \<or> json_body r' = Some JOther \<longrightarrow>
      fetch_ai_news api_key (Responds r') = get_fallback_news) \<and>
   5 \<le> length get_fallback_news"
proof -
  have "fetch_try api_key http = Inl e \<longrightarrow> fetch_ai_news api_key http = get_fallback_news"
    by (cases e) (simp_all add: fetch_ai_news_def)
  moreover have "fetch_ai_news api_key (Raises e') = get_fallback_news"
    by (cases e') (simp_all add: fetch_ai_news_def fetch_try_def)
  moreover have "raise_for_status r \<longrightarrow> fetch_ai_news api_key (Responds r) = get_fallback_news"
    by (simp add: fetch_ai_news_def fetch_try_def)
  moreover have "json_body r' = None \<or> json_body r' = Some JOther \<longrightarrow>
      fetch_ai_news api_key (Responds r') = get_fallback_news"
    by (auto simp: fetch_ai_news_def fetch_try_def)
  ultimately show ?thesis
    by (simp add: fetch_no_key fallback_length)
qed

theorem fetch_ai_news_fallback_witness:
  "fetch_try (Some (str ''key'')) (Responds server_error) = Inl RequestException \<and>
   fetch_ai_news (Some (str ''key'')) (Responds server_error) = get_fallback_news \<and>
   \<not> truthy (Some []) \<and>
   fetch_ai_news (Some []) sample_response = get_fallback_news \<and>
   fetch_ai_news (Some (str ''key'')) (Raises OtherException) = get_fallback_news \<and>
   raise_for_status server_error \<and>
   json_body server_error = None \<and>
   length get_fallback_news = 5"
  using fetch_ai_news_fallback [of "Some (str ''key'')" "Responds server_error" RequestException
      "Some []" sample_response OtherException server_error server_error]
  by (simp add: fetch_try_def server_error_def raise_for_status_def fallback_length)

section \<open>Facts about the loop of send\_daily\_news\<close>

lemma send_one_goes_on:
  assumes "no_escape w a (k, u)"
  shows "send_one w k a u st =
     Goes_on (st\<lparr>successful_sends :=
                  successful_sends st + (if outcome w a (k, u) = Returns True then 1 else 0),
                failed_sends := failed_sends st + failures w a (k, u),
                visited := visited st @ [visited_user (outcome w a (k, u)) (utcnow w k) u],
                session_new := session_new st @
                  (if session_add w k = None then [staged_row (outcome w a (k, u)) a u]
                   else [])\<rparr>)"
proof (cases "send_news_email w k (email u) a")
  case (Returns success)
  with assms show ?thesis
    by (cases "session_add w k"; cases success)
       (auto simp: send_one_def handler_def no_escape_def outcome_def failures_def
          staged_row_def visited_user_def printable_def Let_def split: option.splits)
next
  case (Throws e)
  with assms show ?thesis
    by (cases "session_add w k")
       (auto simp: send_one_def handler_def no_escape_def outcome_def failures_def
          staged_row_def visited_user_def printable_def Let_def split: option.splits)
qed

lemma send_one_escapes:
  assumes "\<not> no_escape w a (k, u)"
  shows "\<exists>st'. send_one w k a u st = Escapes st' \<and> session_new st' = session_new st \<and>
           mail_calls st' = mail_calls st"
proof (cases "send_news_email w k (email u) a")
  case (Returns success)
  with assms show ?thesis
    by (cases "session_add w k")
       (auto simp: send_one_def handler_def no_escape_def outcome_def printable_def Let_def
          split: option.splits)
next
  case (Throws e)
  with assms show ?thesis
    by (auto simp: send_one_def handler_def no_escape_def outcome_def printable_def Let_def
          split: option.splits)
qed

lemma loop_goes_on:
  assumes "\<forall>p \<in> set (enumerate k us). no_escape w a p"
  shows "send_loop w a k us st =
     Goes_on \<lparr>successful_sends = successful_sends st +
                 length (filter (\<lambda>p. outcome w a p = Returns True) (enumerate k us)),
              failed_sends = failed_sends st + sum_list (map (failures w a) (enumerate k us)),
              visited = visited st @
                 map (\<lambda>p. visited_user (outcome w a p) (utcnow w (fst p)) (snd p)) (enumerate k us),
              session_new = session_new st @
                 map (\<lambda>p. staged_row (outcome w a p) a (snd p))
                   (filter (\<lambda>p. session_add w (fst p) = None) (enumerate k us)),
              mail_calls = mail_calls st @ map (\<lambda>u. (email u, a)) us\<rparr>"
  using assms
proof (induction us arbitrary: k st)
  case Nil
  then show ?case by simp
next
  case (Cons u us)
  from Cons.prems have head: "no_escape w a (k, u)"
    and rest: "\<forall>p \<in> set (enumerate (Suc k) us). no_escape w a p"
    by simp_all
  show ?case
    by (simp add: send_one_goes_on [OF head] Cons.IH [OF rest])
qed

lemma loop_escape_free:
  "send_loop w a k us st = Goes_on S \<Longrightarrow> \<forall>p \<in> set (enumerate k us). no_escape w a p"
proof (induction us arbitrary: k st)
  case Nil
  then show ?case by simp
next
  case (Cons u us)
  show ?case
  proof (cases "no_escape w a (k, u)")
    case True
    with Cons.prems have "send_loop w a (Suc k) us
        (state_of (send_one w k a u (st\<lparr>mail_calls := mail_calls st @ [(email u, a)]\<rparr>))) =
        Goes_on S"
      by (simp add: send_one_goes_on)
    from Cons.IH [OF this] True show ?thesis
      by simp
  next
    case False
    from send_one_escapes [OF this] Cons.prems show ?thesis
      by (metis loop_result.distinct(1) loop_result.simps(6) send_loop.simps(2))
  qed
qed

lemma loop_general:
  "length (session_new (state_of (send_loop w a k us st))) \<le> length (session_new st) + length us \<and>
   (\<exists>n \<le> length us. mail_calls (state_of (send_loop w a k us st)) =
       mail_calls st @ map (\<lambda>u. (email u, a)) (take n us))"
proof (induction us arbitrary: k st)
  case Nil
  then show ?case by simp
next
  case (Cons u us)
  let ?st = "st\<lparr>mail_calls := mail_calls st @ [(email u, a)]\<rparr>"
  show ?case
  proof (cases "no_escape w a (k, u)")
    case True
    obtain st' where one: "send_one w k a u ?st = Goes_on st'"
      and rows: "length (session_new st') \<le> length (session_new st) + 1"
      and calls: "mail_calls st' = mail_calls st @ [(email u, a)]"
      using send_one_goes_on [OF True, of ?st] by simp
    from Cons.IH [of "Suc k" st'] obtain n where n: "n \<le> length us"
      "length (session_new (state_of (send_loop w a (Suc k) us st'))) \<le>
         length (session_new st') + length us"
      "mail_calls (state_of (send_loop w a (Suc k) us st')) =
         mail_calls st' @ map (\<lambda>u. (email u, a)) (take n us)"
      by blast
    have "mail_calls (state_of (send_loop w a k (u # us) st)) =
        mail_calls st @ map (\<lambda>u. (email u, a)) (take (Suc n) (u # us))"
      using one n(3) calls by simp
    moreover have "length (session_new (state_of (send_loop w a k (u # us) st))) \<le>
        length (session_new st) + length (u # us)"
      using one n(2) rows by simp
    moreover have "Suc n \<le> length (u # us)"
      using n(1) by simp
    ultimately show ?thesis
      by blast
  next
    case False
    from send_one_escapes [OF this, of ?st] obtain st' where
      "send_one w k a u ?st = Escapes st'" "session_new st' = session_new st"
      "mail_calls st' = mail_calls st @ [(email u, a)]"
      by auto
    then have "length (session_new (state_of (send_loop w a k (u # us) st))) \<le>
        length (session_new st) + length (u # us)"
      and "mail_calls (state_of (send_loop w a k (u # us) st)) =
        mail_calls st @ map (\<lambda>u. (email u, a)) (take 1 (u # us))"
      by simp_all
    moreover have "1 \<le> length (u # us)"
      by simp
    ultimately show ?thesis
      by blast
  qed
qed

lemma no_escape_enumerate:
  "(\<forall>p \<in> set (enumerate 0 us). no_escape w a p) \<longleftrightarrow> (\<forall>i < length us. no_escape w a (i, us ! i))"
  by (auto simp: in_set_enumerate_eq)

lemma all_staged_enumerate:
  "\<forall>i < length us. session_add w i = None \<Longrightarrow>
     filter (\<lambda>p. session_add w (fst p) = None) (enumerate 0 us) = enumerate 0 us"
  by (auto simp: in_set_enumerate_eq intro!: filter_True)

lemma map_snd_enumerate_with: "map (\<lambda>p. f (snd p)) (enumerate n us) = map f us"
  by (induction us arbitrary: n) simp_all



lemma write_back_filter:
  "length vs = length (filter is_active us) \<Longrightarrow> \<forall>v \<in> set vs. is_active v \<Longrightarrow>
     filter is_active (write_back us vs) = vs \<and>
     filter (\<lambda>u. \<not> is_active u) (write_back us vs) = filter (\<lambda>u. \<not> is_active u) us \<and>
     length (write_back us vs) = length us"
  by (induction us vs rule: write_back.induct) (auto split: list.splits)

lemma filter_eq_distinct:
  "distinct ys \<Longrightarrow> y \<in> set ys \<Longrightarrow> length (filter (\<lambda>x. x = y) ys) = 1"
proof (induction ys)
  case Nil
  then show ?case by simp
next
  case (Cons z zs)
  show ?case
  proof (cases "z = y")
    case True
    with Cons.prems have "filter (\<lambda>x. x = y) zs = []"
      by (auto simp: filter_empty_conv)
    with True show ?thesis by simp
  next
    case False
    with Cons show ?thesis by simp
  qed
qed

lemma one_row_of_distinct:
  assumes "distinct (map f xs)" "i < length xs"
  shows "length (filter (\<lambda>x. f x = f (xs ! i)) xs) = 1"
proof -
  have "length (filter (\<lambda>x. f x = f (xs ! i)) xs) =
        length (filter (\<lambda>b. b = f (xs ! i)) (map f xs))"
    by (simp add: filter_map comp_def)
  also have "\<dots> = 1"
    using assms by (intro filter_eq_distinct) auto
  finally show ?thesis .
qed

text \<open>A run that reaches the loop, by how the loop ends.\<close>

lemma run_loop:
  assumes "\<not> query_raises w" "us = filter is_active (users db)" "us \<noteq> []"
    "news = fetch_ai_news (NEWS_API_KEY w) (http_get w)" "news \<noteq> []"
  shows "final (send_daily_news w db) = state_of (send_loop w news 0 us loop_start)"
    and "loop_escaped (send_daily_news w db) = escaped (send_loop w news 0 us loop_start)"
    and "fetches (send_daily_news w db) = 1"
  using assms
  by (cases "send_loop w news 0 us loop_start"; simp add: send_daily_news_def Let_def)+

lemma run_completed:
  assumes "\<not> query_raises w" "us = filter is_active (users db)" "us \<noteq> []"
    "news = fetch_ai_news (NEWS_API_KEY w) (http_get w)" "news \<noteq> []"
    "send_loop w news 0 us loop_start = Goes_on st"
  shows "send_daily_news w db =
     \<lparr>printed = Some \<lparr>successful = successful_sends st, failed = failed_sends st,
          articles = length news\<rparr>,
      db_after =
        (if commit_raises w then db
         else db\<lparr>users := write_back (users db) (visited st),
                 email_logs := email_logs db @ session_new st\<rparr>),
      fetches = 1, commits = 1,
      rollbacks = (if commit_raises w then 1 else 0),
      final = st, loop_escaped = False\<rparr>"
  using assms by (simp add: send_daily_news_def Let_def)

lemma run_escaped:
  assumes "\<not> query_raises w" "us = filter is_active (users db)" "us \<noteq> []"
    "news = fetch_ai_news (NEWS_API_KEY w) (http_get w)" "news \<noteq> []"
    "send_loop w news 0 us loop_start = Escapes st"
  shows "send_daily_news w db =
     \<lparr>printed = None, db_after = db, fetches = 1, commits = 0, rollbacks = 1,
      final = st, loop_escaped = True\<rparr>"
  using assms by (simp add: send_daily_news_def Let_def)

text \<open>The loop from its start, when no exception leaves it.\<close>

lemma loop_from_start:
  assumes "\<forall>i < length us. no_escape w a (i, us ! i)"
  shows "send_loop w a 0 us loop_start =
     Goes_on \<lparr>successful_sends =
                 length (filter (\<lambda>p. outcome w a p = Returns True) (enumerate 0 us)),
              failed_sends = sum_list (map (failures w a) (enumerate 0 us)),
              visited =
                 map (\<lambda>p. visited_user (outcome w a p) (utcnow w (fst p)) (snd p)) (enumerate 0 us),
              session_new =
                 map (\<lambda>p. staged_row (outcome w a p) a (snd p))
                   (filter (\<lambda>p. session_add w (fst p) = None) (enumerate 0 us)),
              mail_calls = map (\<lambda>u. (email u, a)) us\<rparr>"
  using loop_goes_on [of 0 us w a loop_start] assms
  by (simp add: no_escape_enumerate loop_start_def)

lemma completed_no_escape:
  assumes "\<not> escaped (send_loop w a 0 us loop_start)"
  shows "\<forall>i < length us. no_escape w a (i, us ! i)"
proof -
  from assms obtain st where "send_loop w a 0 us loop_start = Goes_on st"
    by (cases "send_loop w a 0 us loop_start") simp_all
  from loop_escape_free [OF this] show ?thesis
    by (simp add: no_escape_enumerate)
qed

text \<open>\<open>no_escape\<close> is exactly the condition under which no exception leaves an
  iteration, and so the loop.\<close>

lemma send_one_escaped_iff:
  "escaped (send_one w k a u st) \<longleftrightarrow> \<not> no_escape w a (k, u)"
proof (cases "no_escape w a (k, u)")
  case True
  then show ?thesis by (simp add: send_one_goes_on)
next
  case False
  from send_one_escapes [OF this, of st] show ?thesis
    using False by auto
qed

lemma loop_escaped_iff:
  "escaped (send_loop w a 0 us loop_start) \<longleftrightarrow> \<not> (\<forall>i < length us. no_escape w a (i, us ! i))"
  using completed_no_escape [of w a us] loop_from_start [of us w a]
  by (cases "\<forall>i < length us. no_escape w a (i, us ! i)") auto

lemma visited_from_start:
  assumes "\<forall>i < length us. no_escape w a (i, us ! i)"
  shows "length (visited (state_of (send_loop w a 0 us loop_start))) = length us"
    and "\<forall>u \<in> set us. is_active u \<Longrightarrow>
           \<forall>v \<in> set (visited (state_of (send_loop w a 0 us loop_start))). is_active v"
    and "i < length us \<Longrightarrow>
           visited (state_of (send_loop w a 0 us loop_start)) ! i =
             visited_user (send_news_email w i (email (us ! i)) a) (utcnow w i) (us ! i)"
  by (auto simp: loop_from_start [OF assms] visited_user_def in_set_enumerate_eq
        nth_enumerate_eq outcome_def)

section \<open>Facts about the concrete inputs\<close>

lemma sample_world_fields:
  "\<not> query_raises sample_world" "\<not> commit_raises sample_world"
  "send_news_email sample_world = sample_send" "utcnow sample_world = sample_clock"
  "stdout_accepts sample_world = utf8_accepts" "session_add sample_world = always_staged"
  by (simp_all add: sample_world_def)


lemma sample_snapshot: "filter is_active (users sample_db) = [ann, bob, dee]"
  by (simp add: sample_db_def ann_def bob_def cy_def dee_def)

lemma sample_news:
  "fetch_ai_news (NEWS_API_KEY sample_world) (http_get sample_world) = get_fallback_news"
  by (simp add: sample_world_def fetch_no_key)


lemma sample_news_silent:
  "fetch_ai_news (NEWS_API_KEY silent_fault_world) (http_get silent_fault_world) =
     get_fallback_news"
  by (simp add: silent_fault_world_def sample_world_def fetch_no_key)

lemma sample_news_unprintable:
  "fetch_ai_news (NEWS_API_KEY unprintable_fault_world) (http_get unprintable_fault_world) =
     get_fallback_news"
  by (simp add: unprintable_fault_world_def sample_world_def fetch_no_key)


lemma no_news:
  "fetch_ai_news (NEWS_API_KEY no_news_world) (http_get no_news_world) = []"
  by (simp add: no_news_world_def sample_world_def empty_response_def fetch_ai_news_def
      fetch_try_def raise_for_status_def)

lemma addresses_accepted:
  "utf8_accepts (email ann)" "utf8_accepts (email bob)" "utf8_accepts (email dee)"
  "utf8_accepts (str ''boom'')" "utf8_accepts (str ''closed'')" "utf8_accepts []"
  "\<not> utf8_accepts [55296]"
  by (simp_all add: utf8_accepts_def ann_def bob_def dee_def str_def)

lemma sample_no_escape:
  assumes "send_news_email w = sample_send" "stdout_accepts w = utf8_accepts"
    "session_add w = always_staged"
  shows "no_escape w a (0, ann)" "no_escape w a (1, bob)" "no_escape w a (2, dee)"
    and "\<forall>i < length [ann, bob, dee]. no_escape w a (i, [ann, bob, dee] ! i)"
    and "\<forall>i < length [ann, bob, dee]. session_add w i = None"
proof -
  show a: "no_escape w a (0, ann)" and b: "no_escape w a (1, bob)"
    and d: "no_escape w a (2, dee)"
    using assms
    by (simp_all add: no_escape_def outcome_def sample_send_def always_staged_def
        printable_def addresses_accepted)
  from a b d show "\<forall>i < length [ann, bob, dee]. no_escape w a (i, [ann, bob, dee] ! i)"
    by (simp add: All_less_Suc numeral_2_eq_2)
  show "\<forall>i < length [ann, bob, dee]. session_add w i = None"
    using assms by (simp add: always_staged_def)
qed

lemma sample_loop:
  assumes "send_news_email w = sample_send" "utcnow w = sample_clock"
    "stdout_accepts w = utf8_accepts" "session_add w = always_staged"
  shows "send_loop w a 0 [ann, bob, dee] loop_start =
     Goes_on \<lparr>successful_sends = 1, failed_sends = 2,
              visited = [ann\<lparr>last_email_sent := Some 1000\<rparr>, bob, dee],
              session_new =
                [\<lparr>user_id = 1, articles_count = length a, status = str ''sent'',
                  error_message = None\<rparr>,
                 \<lparr>user_id = 2, articles_count = length a, status = str ''failed'',
                  error_message = Some (str ''boom'')\<rparr>,
                 \<lparr>user_id = 4, articles_count = length a, status = str ''failed'',
                  error_message = Some (str ''Failed to send email'')\<rparr>],
              mail_calls = [(email ann, a), (email bob, a), (email dee, a)]\<rparr>"
  unfolding loop_from_start [OF sample_no_escape(4) [OF assms(1,3,4)]]
  using assms
  by (simp add: outcome_def failures_def staged_row_def visited_user_def sample_send_def
      sample_clock_def always_staged_def ann_def bob_def dee_def)

lemma sample_run:
  "send_daily_news sample_world sample_db =
     \<lparr>printed = Some \<lparr>successful = 1, failed = 2, articles = 5\<rparr>,
      db_after = \<lparr>users = [ann\<lparr>last_email_sent := Some 1000\<rparr>, bob, cy, dee],
        email_logs = [cy_log,
          \<lparr>user_id = 1, articles_count = 5, status = str ''sent'', error_message = None\<rparr>,
          \<lparr>user_id = 2, articles_count = 5, status = str ''failed'',
           error_message = Some (str ''boom'')\<rparr>,
          \<lparr>user_id = 4, articles_count = 5, status = str ''failed'',
           error_message = Some (str ''Failed to send email'')\<rparr>]\<rparr>,
      fetches = 1, commits = 1, rollbacks = 0,
      final = \<lparr>successful_sends = 1, failed_sends = 2,
              visited = [ann\<lparr>last_email_sent := Some 1000\<rparr>, bob, dee],
              session_new =
                [\<lparr>user_id = 1, articles_count = 5, status = str ''sent'',
                  error_message = None\<rparr>,
                 \<lparr>user_id = 2, articles_count = 5, status = str ''failed'',
                  error_message = Some (str ''boom'')\<rparr>,
                 \<lparr>user_id = 4, articles_count = 5, status = str ''failed'',
                  error_message = Some (str ''Failed to send email'')\<rparr>],
              mail_calls = [(email ann, get_fallback_news), (email bob, get_fallback_news),
                (email dee, get_fallback_news)]\<rparr>,
      loop_escaped = False\<rparr>"
  using run_completed [OF sample_world_fields(1) sample_snapshot [symmetric] _
      sample_news [symmetric] fallback_nonempty sample_loop [OF sample_world_fields(3-6)]]
  by (simp add: sample_world_fields(2) fallback_length sample_db_def ann_def bob_def cy_def dee_def)

lemma unprintable_fields:
  "\<not> query_raises unprintable_fault_world"
  "send_news_email unprintable_fault_world = surrogate_send"
  "utcnow unprintable_fault_world = sample_clock"
  "stdout_accepts unprintable_fault_world = utf8_accepts"
  "session_add unprintable_fault_world = always_staged"
  by (simp_all add: unprintable_fault_world_def sample_world_def)

lemma unprintable_loop:
  "send_loop unprintable_fault_world a 0 [ann, bob, dee] loop_start =
     Escapes \<lparr>successful_sends = 1, failed_sends = 1,
              visited = [ann\<lparr>last_email_sent := Some 1000\<rparr>, bob],
              session_new =
                [\<lparr>user_id = 1, articles_count = length a, status = str ''sent'',
                  error_message = None\<rparr>],
              mail_calls = [(email ann, a), (email bob, a)]\<rparr>"
  by (simp add: send_one_def handler_def unprintable_fields surrogate_send_def
      sample_clock_def always_staged_def addresses_accepted loop_start_def Let_def)
     (simp add: ann_def bob_def)

lemma unprintable_run:
  "send_daily_news unprintable_fault_world sample_db =
     \<lparr>printed = None, db_after = sample_db, fetches = 1, commits = 0, rollbacks = 1,
      final = \<lparr>successful_sends = 1, failed_sends = 1,
              visited = [ann\<lparr>last_email_sent := Some 1000\<rparr>, bob],
              session_new =
                [\<lparr>user_id = 1, articles_count = 5, status = str ''sent'',
                  error_message = None\<rparr>],
              mail_calls = [(email ann, get_fallback_news), (email bob, get_fallback_news)]\<rparr>,
      loop_escaped = True\<rparr>"
  using run_escaped [OF unprintable_fields(1) sample_snapshot [symmetric] _
      sample_news_unprintable [symmetric] fallback_nonempty unprintable_loop]
  by (simp add: fallback_length)




section \<open>Properties of send\_daily\_news\<close>




text \<open>
  C2, as the code has it: in a run that reaches the loop, in which no exception leaves
  the loop and staging does not raise, a subscriber whose mail call returns false or raises
  gets a row with status \<open>failed\<close> and an error detail: the fixed message
  \<open>Failed to send email\<close> for a false result, the text of the exception for a raised
  one, which is empty exactly when that text is empty. With distinct ids no other row of
  the run is for that subscriber, and the mail call is made for every subscriber of the
  snapshot, before and after the one that failed.
\<close>

theorem failed_send_is_logged:
  assumes "\<not> query_raises w"
    and "us = filter is_active (users db)" and "us \<noteq> []"
    and "news = fetch_ai_news (NEWS_API_KEY w) (http_get w)" and "news \<noteq> []"
    and "\<forall>j < length us. no_escape w news (j, us ! j)"
    and "\<forall>j < length us. session_add w j = None"
    and "i < length us"
    and "r = send_news_email w i (email (us ! i)) news" and "r \<noteq> Returns True"
    and "st = final (send_daily_news w db)"
  shows "\<not> loop_escaped (send_daily_news w db) \<and>
         length (session_new st) = length us \<and>
         user_id (session_new st ! i) = uid (us ! i) \<and>
         status (session_new st ! i) = str ''failed'' \<and>
         error_message (session_new st ! i) =
           (case r of Returns b \<Rightarrow> Some (str ''Failed to send email'') | Throws e \<Rightarrow> e) \<and>
         error_message (session_new st ! i) \<noteq> None \<and>
         (error_message (session_new st ! i) = Some [] \<longleftrightarrow> r = Throws (Some [])) \<and>
         (distinct (map uid us) \<longrightarrow>
            length (filter (\<lambda>row. user_id row = uid (us ! i)) (session_new st)) = 1) \<and>
         mail_calls st = map (\<lambda>u. (email u, news)) us"
proof -
  note loop = loop_from_start [OF assms(6)]
  have esc: "\<not> loop_escaped (send_daily_news w db)"
    using run_loop(2) [OF assms(1-5)] by (simp add: loop)
  have st: "st = state_of (send_loop w news 0 us loop_start)"
    using run_loop(1) [OF assms(1-5)] assms(11) by simp
  have rows: "session_new st = map (\<lambda>p. staged_row (outcome w news p) news (snd p)) (enumerate 0 us)"
    by (simp add: st loop all_staged_enumerate [OF assms(7)])
  have len: "length (session_new st) = length us"
    by (simp add: rows)
  have row: "session_new st ! i = staged_row r news (us ! i)"
    using assms(8,9) by (simp add: rows nth_enumerate_eq outcome_def)
  have ids': "map user_id (session_new st) = map uid us"
    by (simp add: rows staged_row_def comp_def map_snd_enumerate_with)
  have "no_escape w news (i, us ! i)"
    using assms(6,8) by blast
  then have pr: "printable w e" if "r = Throws e" for e
    using assms(9) that by (auto simp: no_escape_def outcome_def split: send_result.splits)
  have detail: "error_message (session_new st ! i) =
           (case r of Returns b \<Rightarrow> Some (str ''Failed to send email'') | Throws e \<Rightarrow> e)"
    using assms(10) by (cases r) (auto simp: row staged_row_def)
  have some: "error_message (session_new st ! i) \<noteq> None"
    using assms(10) pr
    by (cases r) (auto simp: row staged_row_def printable_def split: option.splits)
  have empty: "error_message (session_new st ! i) = Some [] \<longleftrightarrow> r = Throws (Some [])"
    using assms(10) by (cases r) (auto simp: row staged_row_def)
  have one: "length (filter (\<lambda>row. user_id row = uid (us ! i)) (session_new st)) = 1"
    if d: "distinct (map uid us)"
  proof -
    have "distinct (map user_id (session_new st))"
      using d ids' by simp
    moreover have "i < length (session_new st)"
      using assms(8) len by simp
    ultimately have "length (filter (\<lambda>row. user_id row = user_id (session_new st ! i))
        (session_new st)) = 1"
      by (rule one_row_of_distinct)
    then show ?thesis
      by (simp add: row staged_row_def)
  qed
  have calls: "mail_calls st = map (\<lambda>u. (email u, news)) us"
    by (simp add: st loop)
  have fields: "user_id (session_new st ! i) = uid (us ! i)"
    "status (session_new st ! i) = str ''failed''"
    using assms(10) by (simp_all add: row staged_row_def)
  from esc len fields detail some empty one calls show ?thesis
    by blast
qed

theorem failed_send_is_logged_witness:
  "\<not> query_raises sample_world \<and>
   filter is_active (users sample_db) = [ann, bob, dee] \<and>
   fetch_ai_news (NEWS_API_KEY sample_world) (http_get sample_world) = get_fallback_news \<and>
   get_fallback_news \<noteq> [] \<and>
   no_escape sample_world get_fallback_news (0, ann) \<and>
   no_escape sample_world get_fallback_news (1, bob) \<and>
   no_escape sample_world get_fallback_news (2, dee) \<and>
   session_add sample_world 0 = None \<and> session_add sample_world 1 = None \<and>
   session_add sample_world 2 = None \<and>
   send_news_email sample_world 1 (email bob) get_fallback_news = Throws (Some (str ''boom'')) \<and>
   distinct (map uid [ann, bob, dee]) \<and>
   length (session_new (final (send_daily_news sample_world sample_db))) = 3 \<and>
   session_new (final (send_daily_news sample_world sample_db)) ! 1 =
     \<lparr>user_id = 2, articles_count = 5, status = str ''failed'',
      error_message = Some (str ''boom'')\<rparr> \<and>
   length (filter (\<lambda>row. user_id row = 2)
      (session_new (final (send_daily_news sample_world sample_db)))) = 1 \<and>
   map fst (mail_calls (final (send_daily_news sample_world sample_db))) =
     [email ann, email bob, email dee]"
proof -
  note ne = sample_no_escape(1-4) [OF sample_world_fields(3,5,6), where a = get_fallback_news]
  note ns = sample_no_escape(5) [OF sample_world_fields(3,5,6)]
  have r: "Throws (Some (str ''boom'')) =
      send_news_email sample_world 1 (email ([ann, bob, dee] ! 1)) get_fallback_news"
    by (simp add: sample_world_fields sample_send_def)
  have i: "1 < length [ann, bob, dee]"
    by simp
  have d: "distinct (map uid [ann, bob, dee])"
    by (simp add: ann_def bob_def dee_def)
  note t = failed_send_is_logged [OF sample_world_fields(1) sample_snapshot [symmetric] _
      sample_news [symmetric] fallback_nonempty ne(4) ns i r _ refl]
  from t d have "length (session_new (final (send_daily_news sample_world sample_db))) = 3 \<and>
     length (filter (\<lambda>row. user_id row = uid bob)
        (session_new (final (send_daily_news sample_world sample_db)))) = 1 \<and>
     mail_calls (final (send_daily_news sample_world sample_db)) =
       map (\<lambda>u. (email u, get_fallback_news)) [ann, bob, dee]"
    by simp
  moreover have "session_new (final (send_daily_news sample_world sample_db)) ! 1 =
     \<lparr>user_id = 2, articles_count = 5, status = str ''failed'',
      error_message = Some (str ''boom'')\<rparr>"
    by (simp add: sample_run)
  ultimately show ?thesis
    using r d ne(1-3) sample_world_fields(1) sample_snapshot sample_news fallback_nonempty
    by (simp add: bob_def sample_world_fields(6) always_staged_def)
qed

theorem failed_send_empty_detail_counterexample:
  "filter is_active (users one_subscriber_db) = [ann] \<and>
   send_news_email silent_fault_world 0 (email ann) get_fallback_news = Throws (Some []) \<and>
   session_new (final (send_daily_news silent_fault_world one_subscriber_db)) =
     [\<lparr>user_id = 1, articles_count = 5, status = str ''failed'', error_message = Some []\<rparr>] \<and>
   filter is_active (users sample_db) = [ann, bob, dee] \<and>
   send_news_email unprintable_fault_world 1 (email bob) get_fallback_news =
     Throws (Some [55296]) \<and>
   \<not> stdout_accepts unprintable_fault_world [55296] \<and>
   loop_escaped (send_daily_news unprintable_fault_world sample_db) \<and>
   session_new (final (send_daily_news unprintable_fault_world sample_db)) =
     [\<lparr>user_id = 1, articles_count = 5, status = str ''sent'', error_message = None\<rparr>] \<and>
   map fst (mail_calls (final (send_daily_news unprintable_fault_world sample_db))) =
     [email ann, email bob]"
proof -
  have q: "\<not> query_raises silent_fault_world"
    and f: "send_news_email silent_fault_world = silent_send"
      "stdout_accepts silent_fault_world = utf8_accepts"
      "session_add silent_fault_world = always_staged"
    by (simp_all add: silent_fault_world_def sample_world_def)
  have s: "filter is_active (users one_subscriber_db) = [ann]"
    by (simp add: one_subscriber_db_def ann_def)
  have l: "send_loop silent_fault_world get_fallback_news 0 [ann] loop_start =
     Goes_on \<lparr>successful_sends = 0, failed_sends = 1, visited = [ann],
       session_new = [\<lparr>user_id = 1, articles_count = 5, status = str ''failed'',
         error_message = Some []\<rparr>],
       mail_calls = [(email ann, get_fallback_news)]\<rparr>"
    by (simp add: send_one_def handler_def f silent_send_def always_staged_def
        addresses_accepted loop_start_def fallback_length)
       (simp add: ann_def)
  have "session_new (final (send_daily_news silent_fault_world one_subscriber_db)) =
     [\<lparr>user_id = 1, articles_count = 5, status = str ''failed'', error_message = Some []\<rparr>]"
    using run_completed [OF q s [symmetric] _ sample_news_silent [symmetric] fallback_nonempty l]
    by simp
  then show ?thesis
    by (simp add: s f silent_send_def sample_snapshot unprintable_run unprintable_fields
        surrogate_send_def addresses_accepted)
qed

text \<open>
  C5, as the code has it: when no subscriber is active, \<open>send_daily_news\<close> returns
  before anything else happens: it prints no summary, does not call \<open>fetch_ai_news\<close>,
  makes no mail call, stages no row, does not commit, and leaves the store as it was; the
  two counters are never raised.
\<close>

theorem no_subscribers_is_noop:
  assumes "filter is_active (users db) = []"
    and "r = send_daily_news w db"
  shows "printed r = None \<and> fetches r = 0 \<and> commits r = 0 \<and> db_after r = db \<and>
         session_new (final r) = [] \<and> mail_calls (final r) = [] \<and>
         successful_sends (final r) = 0 \<and> failed_sends (final r) = 0"
  using assms by (simp add: send_daily_news_def loop_start_def)

theorem no_subscribers_is_noop_witness:
  "filter is_active (users no_subscriber_db) = [] \<and>
   printed (send_daily_news sample_world no_subscriber_db) = None \<and>
   fetches (send_daily_news sample_world no_subscriber_db) = 0 \<and>
   commits (send_daily_news sample_world no_subscriber_db) = 0 \<and>
   db_after (send_daily_news sample_world no_subscriber_db) = no_subscriber_db \<and>
   session_new (final (send_daily_news sample_world no_subscriber_db)) = [] \<and>
   mail_calls (final (send_daily_news sample_world no_subscriber_db)) = []"
proof -
  have e: "filter is_active (users no_subscriber_db) = []"
    by (simp add: no_subscriber_db_def cy_def)
  show ?thesis
    using e no_subscribers_is_noop [OF e refl, of sample_world] by simp
qed

theorem no_subscribers_summary_counterexample:
  "filter is_active (users no_subscriber_db) = [] \<and>
   printed (send_daily_news sample_world no_subscriber_db) = None \<and>
   printed (send_daily_news sample_world no_subscriber_db) \<noteq>
     Some \<lparr>successful = 0, failed = 0, articles = 0\<rparr>"
  by (simp add: send_daily_news_def no_subscriber_db_def cy_def sample_world_fields)

text \<open>
  C6: in a run whose snapshot is not empty, \<open>fetch_ai_news\<close> is called once and every
  mail call of the run is made with the list it returned, for the subscribers of the
  snapshot in order. When no exception leaves the loop, every subscriber gets that call,
  and what the run records is what \<open>send_news_email\<close> answered to that address and that
  list: the count of successes is the number of subscribers for whom it returned true, and
  a subscriber's \<open>last_email_sent\<close> is set exactly when it did. When the list is empty
  the run ends there: no mail call, no row staged, no commit, the store as it was.
\<close>

theorem articles_fetched_once_and_shared:
  assumes "\<not> query_raises w"
    and "us = filter is_active (users db)" and "us \<noteq> []"
    and "news = fetch_ai_news (NEWS_API_KEY w) (http_get w)"
    and "r = send_daily_news w db"
  shows "fetches r = 1 \<and>
         (\<forall>c \<in> set (mail_calls (final r)). snd c = news) \<and>
         (\<exists>n \<le> length us. mail_calls (final r) = map (\<lambda>u. (email u, news)) (take n us)) \<and>
         (news \<noteq> [] \<and> \<not> loop_escaped r \<longrightarrow>
            mail_calls (final r) = map (\<lambda>u. (email u, news)) us \<and>
            successful_sends (final r) =
              length (filter (\<lambda>p. send_news_email w (fst p) (email (snd p)) news = Returns True)
                (enumerate 0 us)) \<and>
            (\<forall>i < length us. visited (final r) ! i =
               (if send_news_email w i (email (us ! i)) news = Returns True
                then (us ! i)\<lparr>last_email_sent := Some (utcnow w i)\<rparr> else us ! i))) \<and>
         (news = [] \<longrightarrow> mail_calls (final r) = [] \<and> session_new (final r) = [] \<and>
            commits r = 0 \<and> db_after r = db \<and> printed r = None)"
proof (cases "news = []")
  case True
  with assms show ?thesis
    by (simp add: send_daily_news_def loop_start_def)
next
  case False
  note run = run_loop [OF assms(1-4) False]
  have f: "final r = state_of (send_loop w news 0 us loop_start)"
    and e: "loop_escaped r = escaped (send_loop w news 0 us loop_start)"
    and "fetches r = 1"
    using run assms(5) by simp_all
  moreover obtain n where n: "n \<le> length us"
    "mail_calls (final r) = map (\<lambda>u. (email u, news)) (take n us)"
    using loop_general [of w news 0 us loop_start] by (auto simp: f loop_start_def)
  moreover from n(2) have "\<forall>c \<in> set (mail_calls (final r)). snd c = news"
    by auto
  moreover have "mail_calls (final r) = map (\<lambda>u. (email u, news)) us \<and>
            successful_sends (final r) =
              length (filter (\<lambda>p. send_news_email w (fst p) (email (snd p)) news = Returns True)
                (enumerate 0 us)) \<and>
            (\<forall>i < length us. visited (final r) ! i =
               (if send_news_email w i (email (us ! i)) news = Returns True
                then (us ! i)\<lparr>last_email_sent := Some (utcnow w i)\<rparr> else us ! i))"
    if "\<not> loop_escaped r"
  proof -
    from that have ne: "\<forall>i < length us. no_escape w news (i, us ! i)"
      using e completed_no_escape by simp
    have "\<forall>i < length us. visited (final r) ! i =
               (if send_news_email w i (email (us ! i)) news = Returns True
                then (us ! i)\<lparr>last_email_sent := Some (utcnow w i)\<rparr> else us ! i)"
      using visited_from_start(3) [OF ne] by (simp add: f visited_user_def)
    then show ?thesis
      by (simp add: f loop_from_start [OF ne] outcome_def)
  qed
  ultimately show ?thesis
    using False by blast
qed

theorem articles_fetched_once_and_shared_witness:
  "\<not> query_raises sample_world \<and> \<not> query_raises no_news_world \<and>
   filter is_active (users sample_db) = [ann, bob, dee] \<and>
   fetch_ai_news (NEWS_API_KEY sample_world) (http_get sample_world) = get_fallback_news \<and>
   get_fallback_news \<noteq> [] \<and>
   \<not> loop_escaped (send_daily_news sample_world sample_db) \<and>
   fetches (send_daily_news sample_world sample_db) = 1 \<and>
   mail_calls (final (send_daily_news sample_world sample_db)) =
     [(email ann, get_fallback_news), (email bob, get_fallback_news),
      (email dee, get_fallback_news)] \<and>
   send_news_email sample_world 0 (email ann) get_fallback_news = Returns True \<and>
   send_news_email sample_world 1 (email bob) get_fallback_news = Throws (Some (str ''boom'')) \<and>
   send_news_email sample_world 2 (email dee) get_fallback_news = Returns False \<and>
   successful_sends (final (send_daily_news sample_world sample_db)) = 1 \<and>
   visited (final (send_daily_news sample_world sample_db)) ! 0 =
     ann\<lparr>last_email_sent := Some (utcnow sample_world 0)\<rparr> \<and>
   visited (final (send_daily_news sample_world sample_db)) ! 2 = dee \<and>
   fetch_ai_news (NEWS_API_KEY no_news_world) (http_get no_news_world) = [] \<and>
   fetches (send_daily_news no_news_world sample_db) = 1 \<and>
   mail_calls (final (send_daily_news no_news_world sample_db)) = [] \<and>
   session_new (final (send_daily_news no_news_world sample_db)) = [] \<and>
   commits (send_daily_news no_news_world sample_db) = 0 \<and>
   db_after (send_daily_news no_news_world sample_db) = sample_db"
proof -
  have q: "\<not> query_raises no_news_world"
    by (simp add: no_news_world_def sample_world_def)
  have e: "\<not> loop_escaped (send_daily_news sample_world sample_db)"
    by (simp add: sample_run)
  have s: "send_news_email sample_world 0 (email ann) get_fallback_news = Returns True"
    "send_news_email sample_world 1 (email bob) get_fallback_news = Throws (Some (str ''boom''))"
    "send_news_email sample_world 2 (email dee) get_fallback_news = Returns False"
    by (simp_all add: sample_world_fields sample_send_def)
  note a = articles_fetched_once_and_shared [OF sample_world_fields(1) sample_snapshot [symmetric] _
      sample_news [symmetric] refl]
  note b = articles_fetched_once_and_shared [OF q sample_snapshot [symmetric] _
      no_news [symmetric] refl]
  from a e fallback_nonempty have
    "fetches (send_daily_news sample_world sample_db) = 1"
    "mail_calls (final (send_daily_news sample_world sample_db)) =
       map (\<lambda>u. (email u, get_fallback_news)) [ann, bob, dee]"
    "successful_sends (final (send_daily_news sample_world sample_db)) =
       length (filter (\<lambda>p. send_news_email sample_world (fst p) (email (snd p)) get_fallback_news =
          Returns True) (enumerate 0 [ann, bob, dee]))"
    "\<forall>i < length [ann, bob, dee]. visited (final (send_daily_news sample_world sample_db)) ! i =
       (if send_news_email sample_world i (email ([ann, bob, dee] ! i)) get_fallback_news =
           Returns True
        then ([ann, bob, dee] ! i)\<lparr>last_email_sent := Some (utcnow sample_world i)\<rparr>
        else [ann, bob, dee] ! i)"
    by simp_all
  from this(4) have
    "visited (final (send_daily_news sample_world sample_db)) ! 0 =
       ann\<lparr>last_email_sent := Some (utcnow sample_world 0)\<rparr>"
    "visited (final (send_daily_news sample_world sample_db)) ! 2 = dee"
    using s by (simp_all add: All_less_Suc numeral_2_eq_2)
  moreover from \<open>successful_sends (final (send_daily_news sample_world sample_db)) = _\<close>
  have "successful_sends (final (send_daily_news sample_world sample_db)) = 1"
    using s by (simp add: numeral_2_eq_2)
  moreover note \<open>fetches (send_daily_news sample_world sample_db) = 1\<close>
    \<open>mail_calls (final (send_daily_news sample_world sample_db)) = _\<close>
  ultimately show ?thesis
    using b q e s sample_world_fields(1) sample_snapshot sample_news no_news fallback_nonempty
    by simp
qed



text \<open>
  C10: a subscriber whose mail call returns false or raises keeps the row in the store,
  and with it \<open>last_email_sent\<close>, exactly as it was, whether the loop ends normally or is
  left by an exception and whether the commit succeeds or not; when the loop ends normally
  the user object in memory is unchanged as well. A subscriber whose mail call succeeds gets
  \<open>last_email_sent\<close> set to the clock reading of that iteration, which reaches the store
  when the loop ends normally and the commit succeeds.
\<close>

theorem failed_send_keeps_last_email_sent:
  assumes "\<not> query_raises w"
    and "us = filter is_active (users db)" and "us \<noteq> []"
    and "news = fetch_ai_news (NEWS_API_KEY w) (http_get w)" and "news \<noteq> []"
    and "i < length us"
    and "r = send_news_email w i (email (us ! i)) news"
    and "run = send_daily_news w db"
  shows "(r \<noteq> Returns True \<longrightarrow>
            filter is_active (users (db_after run)) ! i = us ! i \<and>
            last_email_sent (filter is_active (users (db_after run)) ! i) =
              last_email_sent (us ! i) \<and>
            (\<not> loop_escaped run \<longrightarrow> visited (final run) ! i = us ! i)) \<and>
         (r = Returns True \<and> \<not> loop_escaped run \<longrightarrow>
            visited (final run) ! i = (us ! i)\<lparr>last_email_sent := Some (utcnow w i)\<rparr> \<and>
            (\<not> commit_raises w \<longrightarrow>
               last_email_sent (filter is_active (users (db_after run)) ! i) =
                 Some (utcnow w i)))"
proof (cases "send_loop w news 0 us loop_start")
  case (Escapes st')
  from run_escaped [OF assms(1-5) this] assms(2,8) show ?thesis
    by simp
next
  case (Goes_on st')
  note result = run_completed [OF assms(1-5) this]
  have f: "final run = st'" and esc: "\<not> loop_escaped run"
    using result assms(8) by simp_all
  have ne: "\<forall>i < length us. no_escape w news (i, us ! i)"
    using Goes_on by (intro completed_no_escape) simp
  have act: "\<forall>u \<in> set us. is_active u"
    using assms(2) by simp
  have v: "visited (final run) ! i = visited_user r (utcnow w i) (us ! i)"
    using visited_from_start(3) [OF ne assms(6)] assms(7) by (simp add: f Goes_on)
  have "length (visited (final run)) = length us"
    using visited_from_start(1) [OF ne] by (simp add: f Goes_on)
  then have "length (visited (final run)) = length (filter is_active (users db))"
    unfolding assms(2) .
  moreover have "\<forall>v \<in> set (visited (final run)). is_active v"
    using visited_from_start(2) [OF ne act] by (simp add: f Goes_on)
  ultimately have wb: "filter is_active (write_back (users db) (visited (final run))) =
      visited (final run)"
    using write_back_filter by blast
  have ok: "filter is_active (users (db_after run)) = visited (final run)"
    if "\<not> commit_raises w"
    using that result assms(8) wb by (simp add: f)
  have bad: "filter is_active (users (db_after run)) = us"
    if "commit_raises w"
    using that result assms(2,8) by simp
  have "filter is_active (users (db_after run)) ! i = us ! i" if "r \<noteq> Returns True"
  proof (cases "commit_raises w")
    case True
    then show ?thesis by (simp add: bad)
  next
    case False
    with that show ?thesis by (simp add: ok v visited_user_def)
  qed
  with v ok esc show ?thesis
    by (auto simp: visited_user_def)
qed

theorem failed_send_keeps_last_email_sent_witness:
  "\<not> query_raises sample_world \<and> \<not> commit_raises sample_world \<and>
   filter is_active (users sample_db) = [ann, bob, dee] \<and>
   fetch_ai_news (NEWS_API_KEY sample_world) (http_get sample_world) = get_fallback_news \<and>
   get_fallback_news \<noteq> [] \<and>
   \<not> loop_escaped (send_daily_news sample_world sample_db) \<and>
   send_news_email sample_world 1 (email bob) get_fallback_news = Throws (Some (str ''boom'')) \<and>
   last_email_sent bob = Some 500 \<and>
   visited (final (send_daily_news sample_world sample_db)) ! 1 = bob \<and>
   last_email_sent (filter is_active (users (db_after (send_daily_news sample_world sample_db))) ! 1) =
     Some 500 \<and>
   send_news_email sample_world 0 (email ann) get_fallback_news = Returns True \<and>
   last_email_sent ann = None \<and>
   visited (final (send_daily_news sample_world sample_db)) ! 0 = ann\<lparr>last_email_sent := Some 1000\<rparr> \<and>
   last_email_sent (filter is_active (users (db_after (send_daily_news sample_world sample_db))) ! 0) =
     Some 1000"
proof -
  have i0: "0 < length [ann, bob, dee]" and i1: "1 < length [ann, bob, dee]"
    by simp_all
  note a = failed_send_keeps_last_email_sent [OF sample_world_fields(1) sample_snapshot [symmetric] _
      sample_news [symmetric] fallback_nonempty i1 refl refl]
  note b = failed_send_keeps_last_email_sent [OF sample_world_fields(1) sample_snapshot [symmetric] _
      sample_news [symmetric] fallback_nonempty i0 refl refl]
  have e: "\<not> loop_escaped (send_daily_news sample_world sample_db)"
    by (simp add: sample_run)
  have s: "send_news_email sample_world 1 (email bob) get_fallback_news = Throws (Some (str ''boom''))"
    "send_news_email sample_world 0 (email ann) get_fallback_news = Returns True"
    "utcnow sample_world 0 = 1000"
    by (simp_all add: sample_world_fields sample_send_def sample_clock_def)
  have l: "last_email_sent bob = Some 500" "last_email_sent ann = None"
    by (simp_all add: ann_def bob_def)
  from a b e show ?thesis
    using s l sample_world_fields(1,2) sample_snapshot sample_news fallback_nonempty
    by simp
qed

section \<open>Facts about start\_scheduler\<close>

lemma register_replaces:
  assumes "job_id daily_news_job \<in> set (map job_id store)"
  shows "register_daily_news_job store =
     Inr (map (\<lambda>j. if job_id j = job_id daily_news_job then daily_news_job else j) store)"
  using assms by (simp add: register_daily_news_job_def add_job_def)

lemma register_appends:
  assumes "job_id daily_news_job \<notin> set (map job_id store)"
  shows "register_daily_news_job store = Inr (store @ [daily_news_job])"
  using assms by (simp add: register_daily_news_job_def add_job_def)

lemma register_registered:
  assumes "register_daily_news_job store = Inr store'"
  shows "daily_news_job \<in> set store'"
    and "\<forall>j \<in> set store'. job_id j = job_id daily_news_job \<longrightarrow> j = daily_news_job"
    and "map job_id store' =
       (if job_id daily_news_job \<in> set (map job_id store) then map job_id store
        else map job_id store @ [job_id daily_news_job])"
    and "register_daily_news_job store' = Inr store'"
proof -
  let ?f = "\<lambda>j. if job_id j = job_id daily_news_job then daily_news_job else j"
  show "daily_news_job \<in> set store'"
  proof (cases "job_id daily_news_job \<in> set (map job_id store)")
    case True
    then obtain j where "j \<in> set store" "job_id j = job_id daily_news_job"
      by auto
    then have "?f j \<in> set (map ?f store)" "?f j = daily_news_job"
      by simp_all
    with True assms show ?thesis
      by (simp add: register_replaces)
  next
    case False
    with assms show ?thesis
      by (auto simp: register_appends)
  qed
  then have "job_id daily_news_job \<in> set (map job_id store')"
    by force
  moreover show same: "\<forall>j \<in> set store'. job_id j = job_id daily_news_job \<longrightarrow> j = daily_news_job"
  proof (cases "job_id daily_news_job \<in> set (map job_id store)")
    case True
    with assms show ?thesis
      by (auto simp: register_replaces)
  next
    case False
    with assms have "store' = store @ [daily_news_job]"
      by (simp add: register_appends)
    moreover have "j \<in> set store \<Longrightarrow> job_id j \<noteq> job_id daily_news_job" for j
      using False by (metis image_eqI set_map)
    ultimately show ?thesis
      by auto
  qed
  then have "map ?f store' = store'"
    by (intro map_idI) auto
  ultimately show "register_daily_news_job store' = Inr store'"
    by (simp add: register_replaces)
  show "map job_id store' =
       (if job_id daily_news_job \<in> set (map job_id store) then map job_id store
        else map job_id store @ [job_id daily_news_job])"
  proof (cases "job_id daily_news_job \<in> set (map job_id store)")
    case True
    have "map job_id (map ?f store) = map job_id store"
      by simp
    with True assms show ?thesis
      by (simp add: register_replaces del: map_map)
  next
    case False
    with assms show ?thesis
      by (auto simp: register_appends)
  qed
qed

lemma register_total: "\<exists>store'. register_daily_news_job store = Inr store'"
  by (simp add: register_daily_news_job_def add_job_def)

text \<open>
  C8: \<open>start_scheduler\<close> returns a running scheduler with exactly one job: its id is
  \<open>daily_news_job\<close>, its trigger fires at hour 22, minute 22 in the zone
  \<open>Asia/Kolkata\<close>, at most one instance of it runs at a time, and missed firings are
  coalesced. Its registration replaces: into any job store it succeeds, the store then
  holds this job, every job with this id in it is this job, the ids of the store are those
  it had (with this one added when it was new), and registering once more changes nothing.
\<close>

theorem start_scheduler_registers_daily_job:
  "start_scheduler = Some \<lparr>daemon = True, jobs = [daily_news_job], running = True\<rparr> \<and>
   job_id daily_news_job = str ''daily_news_job'' \<and>
   trigger daily_news_job = \<lparr>hour = 22, minute = 22, timezone = str ''Asia/Kolkata''\<rparr> \<and>
   max_instances daily_news_job = 1 \<and>
   coalesce daily_news_job \<and>
   (\<exists>store'. register_daily_news_job store = Inr store' \<and>
      daily_news_job \<in> set store' \<and>
      (\<forall>j \<in> set store'. job_id j = job_id daily_news_job \<longrightarrow> j = daily_news_job) \<and>
      map job_id store' =
        (if job_id daily_news_job \<in> set (map job_id store) then map job_id store
         else map job_id store @ [job_id daily_news_job]) \<and>
      register_daily_news_job store' = Inr store')"
proof -
  have "start_scheduler = Some \<lparr>daemon = True, jobs = [daily_news_job], running = True\<rparr>"
    by (simp add: start_scheduler_def register_appends)
  moreover have "job_id daily_news_job = str ''daily_news_job''"
    "trigger daily_news_job = \<lparr>hour = 22, minute = 22, timezone = str ''Asia/Kolkata''\<rparr>"
    "max_instances daily_news_job = 1" "coalesce daily_news_job"
    by (simp_all add: daily_news_job_def)
  moreover obtain store' where "register_daily_news_job store = Inr store'"
    using register_total by blast
  ultimately show ?thesis
    using register_registered [of store store'] by blast
qed

theorem start_scheduler_registers_daily_job_witness:
  "job_id stale_job = job_id daily_news_job \<and>
   hour (trigger stale_job) = 10 \<and>
   register_daily_news_job [stale_job] = Inr [daily_news_job] \<and>
   register_daily_news_job [daily_news_job] = Inr [daily_news_job] \<and>
   start_scheduler = Some \<lparr>daemon = True, jobs = [daily_news_job], running = True\<rparr> \<and>
   hour (trigger daily_news_job) = 22 \<and> minute (trigger daily_news_job) = 22"
proof -
  have s: "job_id stale_job = job_id daily_news_job" "hour (trigger stale_job) = 10"
    by (simp_all add: stale_job_def)
  obtain store' where r: "register_daily_news_job [stale_job] = Inr store'"
    and m: "map job_id store' = (if job_id daily_news_job \<in> set (map job_id [stale_job])
         then map job_id [stale_job] else map job_id [stale_job] @ [job_id daily_news_job])"
    and a: "\<forall>j \<in> set store'. job_id j = job_id daily_news_job \<longrightarrow> j = daily_news_job"
    and i: "register_daily_news_job store' = Inr store'"
    and t: "trigger daily_news_job = \<lparr>hour = 22, minute = 22, timezone = str ''Asia/Kolkata''\<rparr>"
    and st: "start_scheduler = Some \<lparr>daemon = True, jobs = [daily_news_job], running = True\<rparr>"
    using start_scheduler_registers_daily_job [of "[stale_job]"] by blast
  from m s have "map job_id store' = [job_id daily_news_job]"
    by simp
  then obtain j where j: "store' = [j]" "job_id j = job_id daily_news_job"
    by auto
  with a have "store' = [daily_news_job]"
    by simp
  with r i s t st show ?thesis
    by simp
qed

section \<open>Facts about subscribe and api\_subscribe\<close>

lemma find_update_first:
  "find P xs = Some x \<Longrightarrow>
     \<exists>i < length xs. xs ! i = x \<and> P x \<and> (\<forall>j < i. \<not> P (xs ! j)) \<and>
       update_first P f xs = xs[i := f x]"
proof (induction xs)
  case Nil
  then show ?case by simp
next
  case (Cons y ys)
  show ?case
  proof (cases "P y")
    case True
    with Cons.prems have "y = x" by simp
    with True show ?thesis by (intro exI [of _ 0]) simp
  next
    case False
    with Cons.prems have "find P ys = Some x" by simp
    from Cons.IH [OF this] obtain i where i: "i < length ys" "ys ! i = x" "P x"
      "\<forall>j < i. \<not> P (ys ! j)" "update_first P f ys = ys[i := f x]" by blast
    have "\<forall>j < Suc i. \<not> P ((y # ys) ! j)"
      using False i(4) by (auto simp: less_Suc_eq_0_disj)
    with i False show ?thesis by (intro exI [of _ "Suc i"]) simp
  qed
qed

lemma find_after_update_first:
  "find P xs = Some x \<Longrightarrow> P (f x) \<Longrightarrow> find P (update_first P f xs) = Some (f x)"
  by (induction xs) (auto split: if_splits)

lemma map_update_first:
  "(\<And>x. g (f x) = g x) \<Longrightarrow> map g (update_first P f xs) = map g xs"
  by (induction xs) auto

lemma length_update_first: "length (update_first P f xs) = length xs"
  by (induction xs) auto

lemma reactivate_fields:
  "email (reactivate w u) = email u" "uid (reactivate w u) = uid u"
  "last_email_sent (reactivate w u) = last_email_sent u"
  "is_active (reactivate w u)" "date_subscribed (reactivate w u) = utcnow w 0"
  by (simp_all add: reactivate_def)

lemma subscribe_reactivates:
  assumes "\<not> query_raises w" "\<not> commit_raises w"
    and "address = py_lower w (py_strip w raw)" "address \<noteq> []" "validate_email address"
    and "find (\<lambda>u. email u = address) (users db) = Some u" "\<not> is_active u"
  shows "subscribe w POST (Some raw) db =
           (Some Welcome_back, Redirect_home,
            db\<lparr>users := update_first (\<lambda>u. email u = address) (reactivate w) (users db)\<rparr>)"
    and "api_subscribe w (Json_object (Some raw)) db =
           (200, True,
            db\<lparr>users := update_first (\<lambda>u. email u = address) (reactivate w) (users db)\<rparr>)"
  using assms by (simp_all add: subscribe_def api_subscribe_def Let_def)

text \<open>
  C9: when the store holds an inactive subscriber under the normalized address of a
  request (the address as \<open>strip\<close> and \<open>lower\<close> leave it, which passes
  \<open>validate_email\<close>) and the query and the commit go through, both \<open>subscribe\<close> and
  \<open>api_subscribe\<close> accept the request and leave the same store: that one row of
  \<open>users\<close> now has \<open>is_active\<close> true and \<open>date_subscribed\<close> at the current time and
  is otherwise as it was, no row is added, the ids and addresses of \<open>users\<close> are as
  before, and \<open>email_logs\<close> is unchanged.
\<close>

theorem resubscribe_reactivates:
  assumes "\<not> query_raises w" and "\<not> commit_raises w"
    and "address = py_lower w (py_strip w raw)" and "address \<noteq> []"
    and "validate_email address"
    and "find (\<lambda>u. email u = address) (users db) = Some u" and "\<not> is_active u"
    and "subscribe w POST (Some raw) db = (msg, page, db1)"
    and "api_subscribe w (Json_object (Some raw)) db = (code, ok, db2)"
  shows "msg = Some Welcome_back \<and> page = Redirect_home \<and> code = 200 \<and> ok \<and> db2 = db1 \<and>
         (\<exists>i < length (users db). users db ! i = u \<and>
            users db1 = (users db)[i := u\<lparr>is_active := True, date_subscribed := utcnow w 0\<rparr>]) \<and>
         find (\<lambda>u. email u = address) (users db1) =
           Some (u\<lparr>is_active := True, date_subscribed := utcnow w 0\<rparr>) \<and>
         length (users db1) = length (users db) \<and>
         map email (users db1) = map email (users db) \<and>
         map uid (users db1) = map uid (users db) \<and>
         map last_email_sent (users db1) = map last_email_sent (users db) \<and>
         email_logs db1 = email_logs db"
proof -
  let ?P = "\<lambda>u. email u = address"
  have db1: "db1 = db\<lparr>users := update_first ?P (reactivate w) (users db)\<rparr>"
    and first: "msg = Some Welcome_back" "page = Redirect_home"
    using subscribe_reactivates(1) [OF assms(1-7)] assms(8) by simp_all
  have db2: "db2 = db\<lparr>users := update_first ?P (reactivate w) (users db)\<rparr>"
    and second: "code = 200" "ok"
    using subscribe_reactivates(2) [OF assms(1-7)] assms(9) by simp_all
  have u: "email u = address"
    using assms(6) by (auto dest: find_Some_iff [THEN iffD1])
  obtain i where i: "i < length (users db)" "users db ! i = u"
    "update_first ?P (reactivate w) (users db) = (users db)[i := reactivate w u]"
    using find_update_first [OF assms(6)] by blast
  have found: "find ?P (update_first ?P (reactivate w) (users db)) = Some (reactivate w u)"
    using assms(6) u by (intro find_after_update_first) (simp_all add: reactivate_fields)
  have maps: "map email (update_first ?P (reactivate w) (users db)) = map email (users db)"
    "map uid (update_first ?P (reactivate w) (users db)) = map uid (users db)"
    "map last_email_sent (update_first ?P (reactivate w) (users db)) =
       map last_email_sent (users db)"
    by (simp_all add: map_update_first reactivate_fields)
  have "\<exists>i < length (users db). users db ! i = u \<and>
            users db1 = (users db)[i := u\<lparr>is_active := True, date_subscribed := utcnow w 0\<rparr>]"
    using i by (auto simp: db1 reactivate_def)
  with first second found maps show ?thesis
    by (simp add: db1 db2 length_update_first reactivate_def)
qed

theorem resubscribe_reactivates_witness:
  "\<not> query_raises sample_world \<and> \<not> commit_raises sample_world \<and>
   py_lower sample_world (py_strip sample_world (str '' CY@x.org '')) = str ''cy@x.org'' \<and>
   validate_email (str ''cy@x.org'') \<and>
   find (\<lambda>u. email u = str ''cy@x.org'') (users sample_db) = Some cy \<and>
   \<not> is_active cy \<and>
   subscribe sample_world POST (Some (str '' CY@x.org '')) sample_db =
     (Some Welcome_back, Redirect_home,
      \<lparr>users = [ann, bob, cy\<lparr>is_active := True, date_subscribed := 1000\<rparr>, dee],
       email_logs = [cy_log]\<rparr>) \<and>
   api_subscribe sample_world (Json_object (Some (str '' CY@x.org ''))) sample_db =
     (200, True,
      \<lparr>users = [ann, bob, cy\<lparr>is_active := True, date_subscribed := 1000\<rparr>, dee],
       email_logs = [cy_log]\<rparr>)"
proof -
  have n: "py_lower sample_world (py_strip sample_world (str '' CY@x.org '')) = str ''cy@x.org''"
    by (simp add: sample_world_def ascii_lower_def ascii_strip_def str_def)
  have ne: "str ''cy@x.org'' \<noteq> []"
    by simp
  have v: "validate_email (str ''cy@x.org'')"
    by (simp add: validate_email_def email_pattern_def one_or_more_def rng_def str_def)
  have f: "find (\<lambda>u. email u = str ''cy@x.org'') (users sample_db) = Some cy"
    by (simp add: sample_db_def ann_def bob_def cy_def dee_def str_def)
  have a: "\<not> is_active cy"
    by (simp add: cy_def)
  have c: "utcnow sample_world 0 = 1000"
    by (simp add: sample_world_fields sample_clock_def)
  obtain msg page db1 where s: "subscribe sample_world POST (Some (str '' CY@x.org '')) sample_db =
      (msg, page, db1)"
    by (metis prod_cases3)
  obtain code ok db2 where p: "api_subscribe sample_world (Json_object (Some (str '' CY@x.org ''))) sample_db =
      (code, ok, db2)"
    by (metis prod_cases3)
  note t = resubscribe_reactivates [OF sample_world_fields(1,2) n [symmetric] ne v f a s p]
  then obtain i where i: "i < length (users sample_db)" "users sample_db ! i = cy"
    "users db1 = (users sample_db)[i := cy\<lparr>is_active := True, date_subscribed := 1000\<rparr>]"
    by (auto simp: c)
  have d: "ann \<noteq> cy" "bob \<noteq> cy" "dee \<noteq> cy"
    by (simp_all add: ann_def bob_def cy_def dee_def)
  from i(1,2) d have "i = 2"
    by (auto simp: sample_db_def less_Suc_eq numeral_3_eq_3 numeral_2_eq_2 nth_Cons')
  with i(3) have "users db1 = [ann, bob, cy\<lparr>is_active := True, date_subscribed := 1000\<rparr>, dee]"
    by (simp add: sample_db_def)
  moreover from t have "email_logs db1 = email_logs sample_db" "db2 = db1"
    "msg = Some Welcome_back" "page = Redirect_home" "code = 200" "ok"
    by simp_all
  ultimately have "db1 = \<lparr>users = [ann, bob, cy\<lparr>is_active := True, date_subscribed := 1000\<rparr>, dee],
       email_logs = [cy_log]\<rparr>" "db2 = db1"
    "msg = Some Welcome_back" "page = Redirect_home" "code = 200" "ok"
    by (simp_all add: sample_db_def)
  with s p n v f a sample_world_fields(1,2) show ?thesis
    by simp
qed

end
